theory Spec2Isabelle
  imports Complex_Main "HOL-Library.AList" "HOL-Library.Char_ord" "HOL-Library.List_Lexorder"
begin

section \<open>Tables\<close>

text \<open>
  A Python exception is its class name and its message. The messages of exceptions that
  pandas itself raises are library text and are left empty.
\<close>

datatype py_error = PyError (exc_class: string) (exc_message: string)

text \<open>
  Column names. The names that \<^verbatim>\<open>feature_engineering.py\<close> spells out are one
  constructor each; the formatted names \<^verbatim>\<open>delay_lag_{hours}h\<close>,
  \<^verbatim>\<open>delay_rolling_mean_{window}h\<close> and \<^verbatim>\<open>delay_rolling_std_{window}h\<close> carry the
  formatted integer; \<open>Other s\<close> is any further column \<open>s\<close> of the caller.
\<close>

datatype colname =
    Timestamp | Route_id | Delay_seconds | Aimed_arrival | Expected_arrival | Delay_minutes
  | Hour | Day_of_week | Day_of_month | Month | Is_weekend
  | Is_morning_peak | Is_evening_peak | Is_peak_hour
  | Hour_sin | Hour_cos | Dow_sin | Dow_cos
  | Delay_lag int | Delay_rolling_mean int | Delay_rolling_std int
  | Route_avg_delay | Route_delay_std
  | Temperature | Precipitation | Is_rainy | Is_holiday | Nearby_event
  | Other string

text \<open>
  A column has one dtype. Numbers are reals with \<open>None\<close> for NaN; instants are integer
  nanoseconds since the epoch with \<open>None\<close> for NaT (the parsed form that
  \<^verbatim>\<open>pd.to_datetime\<close> produces); text cells are strings with \<open>None\<close> for a missing
  value.
\<close>

datatype column =
    Numeric "real option list"
  | Datetime "int option list"
  | Text "string option list"

datatype cell = Num real | Instant int | Str string

fun cells :: "column \<Rightarrow> cell option list" where
  "cells (Numeric xs) = map (map_option Num) xs"
| "cells (Datetime xs) = map (map_option Instant) xs"
| "cells (Text xs) = map (map_option Str) xs"

text \<open>
  The row labels of a frame: integers (the default index) or instants (a
  \<^verbatim>\<open>DatetimeIndex\<close>).
\<close>

datatype index = IntegerIndex "int list" | DatetimeIndex "int list"

fun index_length :: "index \<Rightarrow> nat" where
  "index_length (IntegerIndex ls) = length ls"
| "index_length (DatetimeIndex ls) = length ls"

record frame =
  index :: index
  columns :: "(colname \<times> column) list"

definition nrows :: "frame \<Rightarrow> nat" where
  "nrows df = index_length (index df)"

definition column_names :: "frame \<Rightarrow> colname list" where
  "column_names df = map fst (columns df)"

text \<open>\<^verbatim>\<open>df[c]\<close> for reading and \<^verbatim>\<open>df[c] = v\<close>: an existing column is replaced in its
  place, a new one is appended.\<close>

definition get_column :: "frame \<Rightarrow> colname \<Rightarrow> column option" where
  "get_column df c = map_of (columns df) c"

definition set_column :: "frame \<Rightarrow> colname \<Rightarrow> column \<Rightarrow> frame" where
  "set_column df c v = df\<lparr>columns := AList.update c v (columns df)\<rparr>"

section \<open>The delay predictor (model.py)\<close>

text \<open>
  The scikit-learn estimator is a parameter: the fresh estimators that the constructor
  builds, \<^verbatim>\<open>predict\<close>, the per-tree predictors behind \<^verbatim>\<open>estimators_\<close> and
  \<^verbatim>\<open>feature_importances_\<close> (both absent, \<open>None\<close>, where the attribute does not
  exist). Raw predictions of a fitted tree ensemble are finite numbers. They are exact
  reals here, and \<open>sk_predict\<close> is a function of the estimator and the table: the
  rounding of the floating-point sums, which for a forest fitted with \<^verbatim>\<open>n_jobs=-1\<close>
  depends on the order in which the worker threads finish, is not part of this model, so
  nothing below speaks about the bit pattern of a prediction.
\<close>

record 'e sklearn =
  RandomForestRegressor :: 'e
  GradientBoostingRegressor :: 'e
  sk_predict :: "'e \<Rightarrow> frame \<Rightarrow> py_error + real list"
  sk_estimators :: "'e \<Rightarrow> (frame \<Rightarrow> py_error + real list) list option"
  sk_feature_importances :: "'e \<Rightarrow> real list option"

record 'e predictor =
  model_type :: string
  model :: 'e
  feature_names :: "colname list option"
  is_trained :: bool

definition init :: "'e sklearn \<Rightarrow> string \<Rightarrow> py_error + 'e predictor" where
  "init sk mt =
     (if mt = ''random_forest'' then
        Inr \<lparr>model_type = mt, model = RandomForestRegressor sk,
             feature_names = None, is_trained = False\<rparr>
      else if mt = ''gradient_boosting'' then
        Inr \<lparr>model_type = mt, model = GradientBoostingRegressor sk,
             feature_names = None, is_trained = False\<rparr>
      else Inl (PyError ''ValueError'' (''Unknown model type: '' @ mt)))"

text \<open>\<^verbatim>\<open>X[names]\<close>: the columns called \<open>names\<close>, in that order; a name that no column
  carries is a \<^verbatim>\<open>KeyError\<close>.\<close>

definition select_columns :: "frame \<Rightarrow> colname list \<Rightarrow> py_error + frame" where
  "select_columns X names =
     (if \<forall>n \<in> set names. n \<in> set (column_names X) then
        Inr (X\<lparr>columns := concat (map (\<lambda>n. filter (\<lambda>kv. fst kv = n) (columns X)) names)\<rparr>)
      else Inl (PyError ''KeyError'' []))"

text \<open>\<^verbatim>\<open>np.clip(a, lo, hi)\<close> is \<^verbatim>\<open>minimum(maximum(a, lo), hi)\<close>, element by element.\<close>

definition np_clip :: "real list \<Rightarrow> real \<Rightarrow> real \<Rightarrow> real list" where
  "np_clip a lo hi = map (\<lambda>x. min (max x lo) hi) a"

definition predict :: "'e sklearn \<Rightarrow> 'e predictor \<Rightarrow> frame \<Rightarrow> py_error + real list" where
  "predict sk self X =
     (if \<not> is_trained self then
        Inl (PyError ''ValueError'' ''Model must be trained before making predictions'')
      else
        case (if Some (column_names X) \<noteq> feature_names self then
                (case feature_names self of
                   None \<Rightarrow> Inl (PyError ''KeyError'' [])
                 | Some names \<Rightarrow> select_columns X names)
              else Inr X) of
          Inl e \<Rightarrow> Inl e
        | Inr X' \<Rightarrow>
            (case sk_predict sk (model self) X' of
               Inl e \<Rightarrow> Inl e
             | Inr predictions \<Rightarrow> Inr (np_clip predictions (- 10) 60)))"

text \<open>\<^verbatim>\<open>np.std\<close> of one row's tree predictions (population standard deviation).\<close>

definition np_mean :: "real list \<Rightarrow> real" where
  "np_mean xs = sum_list xs / real (length xs)"

definition np_std :: "real list \<Rightarrow> real" where
  "np_std xs = sqrt (np_mean (map (\<lambda>x. (x - np_mean xs)\<^sup>2) xs))"

fun collect :: "(py_error + 'a) list \<Rightarrow> py_error + 'a list" where
  "collect [] = Inr []"
| "collect (Inl e # rs) = Inl e"
| "collect (Inr x # rs) = (case collect rs of Inl e \<Rightarrow> Inl e | Inr xs \<Rightarrow> Inr (x # xs))"

definition predict_with_confidence ::
  "'e sklearn \<Rightarrow> 'e predictor \<Rightarrow> frame \<Rightarrow> py_error + real list \<times> real list" where
  "predict_with_confidence sk self X =
     (case predict sk self X of
        Inl e \<Rightarrow> Inl e
      | Inr predictions \<Rightarrow>
          (case sk_estimators sk (model self) of
             Some trees \<Rightarrow>
               (case collect (map (\<lambda>tree. tree X) trees) of
                  Inl e \<Rightarrow> Inl e
                | Inr tree_predictions \<Rightarrow>
                    Inr (predictions,
                         map (\<lambda>j. np_std (map (\<lambda>t. t ! j) tree_predictions)) [0..<nrows X]))
           | None \<Rightarrow> Inr (predictions, map (\<lambda>_. 2) predictions)))"

text \<open>
  \<^verbatim>\<open>get_feature_importance\<close> returns the (feature, importance) rows by descending
  importance. \<^verbatim>\<open>sort_values\<close> runs with its default, unstable sorting kind, so the order
  of equally important features is not fixed by the code: the operation is a relation
  between the predictor and its possible results.
\<close>

inductive get_feature_importance ::
  "'e sklearn \<Rightarrow> 'e predictor \<Rightarrow> py_error + (colname \<times> real) list \<Rightarrow> bool" where
  untrained:
    "\<not> is_trained self \<Longrightarrow>
     get_feature_importance sk self (Inl (PyError ''ValueError'' ''Model must be trained first''))"
| unsupported:
    "is_trained self \<Longrightarrow> sk_feature_importances sk (model self) = None \<Longrightarrow>
     get_feature_importance sk self (Inr [])"
| mismatch:
    "is_trained self \<Longrightarrow> sk_feature_importances sk (model self) = Some imp \<Longrightarrow>
     (case feature_names self of None \<Rightarrow> True | Some names \<Rightarrow> length names \<noteq> length imp) \<Longrightarrow>
     get_feature_importance sk self (Inl (PyError ''ValueError'' []))"
| ranked:
    "is_trained self \<Longrightarrow> sk_feature_importances sk (model self) = Some imp \<Longrightarrow>
     feature_names self = Some names \<Longrightarrow> length names = length imp \<Longrightarrow>
     distinct p \<Longrightarrow> set p = {0..<length imp} \<Longrightarrow>
     sorted (rev (map (\<lambda>i. imp ! i) p)) \<Longrightarrow>
     get_feature_importance sk self (Inr (map (\<lambda>i. (names ! i, imp ! i)) p))"

text \<open>
  The file system is a map from paths to the dictionaries that \<^verbatim>\<open>joblib.dump\<close> wrote;
  \<^verbatim>\<open>joblib.load\<close> gives back the dictionary stored under the path. What joblib's
  serialisation does to an estimator is the library's and is not modelled: \<open>save\<close> and
  \<open>load\<close> show which fields the code passes to it and what it does with the result.
\<close>

record 'e model_data =
  d_model :: 'e
  d_model_type :: string
  d_feature_names :: "colname list option"
  d_is_trained :: bool

type_synonym 'e files = "string \<rightharpoonup> 'e model_data"

definition save :: "'e predictor \<Rightarrow> string \<Rightarrow> 'e files \<Rightarrow> py_error + 'e files" where
  "save self path fs =
     (if \<not> is_trained self then Inl (PyError ''ValueError'' ''Cannot save untrained model'')
      else Inr (fs(path \<mapsto> \<lparr>d_model = model self, d_model_type = model_type self,
                             d_feature_names = feature_names self,
                             d_is_trained = is_trained self\<rparr>)))"

definition load :: "'e sklearn \<Rightarrow> string \<Rightarrow> 'e files \<Rightarrow> py_error + 'e predictor" where
  "load sk path fs =
     (case fs path of
        None \<Rightarrow> Inl (PyError ''FileNotFoundError'' [])
      | Some model_data \<Rightarrow>
          (case init sk (d_model_type model_data) of
             Inl e \<Rightarrow> Inl e
           | Inr predictor \<Rightarrow>
               Inr (predictor\<lparr>model := d_model model_data,
                              feature_names := d_feature_names model_data,
                              is_trained := d_is_trained model_data\<rparr>)))"

section \<open>The feature engine (feature_engineering.py)\<close>

subsection \<open>pandas operations used by the engine\<close>

definition ns_per_second :: int where
  "ns_per_second = 1000000000"

definition ns_per_hour :: int where
  "ns_per_hour = 3600 * ns_per_second"

definition ns_per_day :: int where
  "ns_per_day = 24 * ns_per_hour"

text \<open>The \<^verbatim>\<open>.dt\<close> fields of an instant (proleptic Gregorian calendar, Monday is day 0;
  the epoch was a Thursday).\<close>

definition dt_hour :: "int \<Rightarrow> int" where
  "dt_hour t = (t div ns_per_hour) mod 24"

definition dt_dayofweek :: "int \<Rightarrow> int" where
  "dt_dayofweek t = (t div ns_per_day + 3) mod 7"

definition civil_from_days :: "int \<Rightarrow> int \<times> int \<times> int" where
  "civil_from_days z0 =
     (let z = z0 + 719468;
          era = z div 146097;
          doe = z - era * 146097;
          yoe = (doe - doe div 1460 + doe div 36524 - doe div 146096) div 365;
          doy = doe - (365 * yoe + yoe div 4 - yoe div 100);
          mp = (5 * doy + 2) div 153;
          d = doy - (153 * mp + 2) div 5 + 1;
          m = (if mp < 10 then mp + 3 else mp - 9);
          y = yoe + era * 400 + (if m \<le> 2 then 1 else 0)
      in (y, m, d))"

definition dt_month :: "int \<Rightarrow> int" where
  "dt_month t = fst (snd (civil_from_days (t div ns_per_day)))"

definition dt_day :: "int \<Rightarrow> int" where
  "dt_day t = snd (snd (civil_from_days (t div ns_per_day)))"

text \<open>
  \<^verbatim>\<open>pd.to_datetime\<close> leaves a datetime column as it is. How pandas reads a number or a
  text as an instant is the parameter \<open>parse\<close>.
\<close>

definition to_datetime ::
  "(cell \<Rightarrow> py_error + int option) \<Rightarrow> column \<Rightarrow> py_error + int option list" where
  "to_datetime parse c =
     (case c of
        Datetime ts \<Rightarrow> Inr ts
      | _ \<Rightarrow> collect (map (\<lambda>x. case x of None \<Rightarrow> Inr None | Some v \<Rightarrow> parse v) (cells c)))"

text \<open>The labels of an index, and the rows \<open>p\<close> of a frame (\<^verbatim>\<open>df.iloc[p]\<close>).\<close>

fun labels :: "index \<Rightarrow> int list" where
  "labels (IntegerIndex ls) = ls"
| "labels (DatetimeIndex ls) = ls"

definition take_positions :: "'a list \<Rightarrow> nat list \<Rightarrow> 'a list" where
  "take_positions xs p = map (\<lambda>i. xs ! i) p"

fun index_take :: "index \<Rightarrow> nat list \<Rightarrow> index" where
  "index_take (IntegerIndex ls) p = IntegerIndex (take_positions ls p)"
| "index_take (DatetimeIndex ls) p = DatetimeIndex (take_positions ls p)"

fun column_take :: "column \<Rightarrow> nat list \<Rightarrow> column" where
  "column_take (Numeric xs) p = Numeric (take_positions xs p)"
| "column_take (Datetime xs) p = Datetime (take_positions xs p)"
| "column_take (Text xs) p = Text (take_positions xs p)"

definition take_rows :: "frame \<Rightarrow> nat list \<Rightarrow> frame" where
  "take_rows df p =
     \<lparr>index = index_take (index df) p,
      columns = map (\<lambda>(c, v). (c, column_take v p)) (columns df)\<rparr>"

text \<open>Every column of a frame has one cell per row.\<close>

definition wf_frame :: "frame \<Rightarrow> bool" where
  "wf_frame df \<longleftrightarrow> (\<forall>(c, v) \<in> set (columns df). length (cells v) = nrows df)"

text \<open>
  \<^verbatim>\<open>df.sort_values(by)\<close> with its defaults: ascending, missing values last, and the
  sorting kind \<^verbatim>\<open>quicksort\<close>, which pandas documents as not stable. pandas sets the
  rows without a key aside, asks numpy for the arrangement of the keys that are there
  (\<^verbatim>\<open>non_nan_idx[non_nans.argsort(kind=kind)]\<close>) and puts the rows without a key behind it
  in their original order. What numpy promises of \<^verbatim>\<open>argsort\<close> is an arrangement in
  ascending order of the keys; which one among rows with equal keys is left to its
  algorithm, so the sort is a relation between a frame and its possible arrangements.
\<close>

fun na_last_le :: "'a::linorder option \<Rightarrow> 'a option \<Rightarrow> bool" where
  "na_last_le (Some a) (Some b) \<longleftrightarrow> a \<le> b"
| "na_last_le _ None \<longleftrightarrow> True"
| "na_last_le None (Some b) \<longleftrightarrow> False"

definition non_nan_idx :: "'a option list \<Rightarrow> nat list" where
  "non_nan_idx ks = filter (\<lambda>i. ks ! i \<noteq> None) [0..<length ks]"

definition nan_idx :: "'a option list \<Rightarrow> nat list" where
  "nan_idx ks = filter (\<lambda>i. ks ! i = None) [0..<length ks]"

definition nargsort :: "'a::linorder option list \<Rightarrow> nat list \<Rightarrow> bool" where
  "nargsort ks p \<longleftrightarrow>
     (let m = length (non_nan_idx ks); indexer = take m p
      in distinct indexer \<and> set indexer = set (non_nan_idx ks)
         \<and> sorted_wrt na_last_le (map (\<lambda>i. ks ! i) indexer)
         \<and> drop m p = nan_idx ks)"

fun argsort_of :: "column \<Rightarrow> nat list \<Rightarrow> bool" where
  "argsort_of (Numeric xs) p = nargsort xs p"
| "argsort_of (Datetime xs) p = nargsort xs p"
| "argsort_of (Text xs) p = nargsort xs p"

inductive sort_values :: "frame \<Rightarrow> colname \<Rightarrow> frame \<Rightarrow> bool" where
  "get_column df by = Some c \<Longrightarrow> argsort_of c p \<Longrightarrow> sort_values df by (take_rows df p)"

text \<open>
  The algorithm behind \<^verbatim>\<open>argsort(kind='quicksort')\<close> for datetime keys is numpy's
  \<^verbatim>\<open>aquicksort_\<close> (\<^verbatim>\<open>npysort/quicksort.cpp\<close>), an introsort on the array \<^verbatim>\<open>tosort\<close> of
  positions: while a range has more than \<^verbatim>\<open>SMALL_QUICKSORT\<close> positions beyond its first
  it is partitioned around the median of its first, middle and last key, the larger part
  is pushed on a stack and the smaller one is continued with; a short range is sorted by
  insertion; a range reached after more than \<^verbatim>\<open>2 * npy_get_msb(num)\<close> partitions is
  sorted by \<^verbatim>\<open>aheapsort_\<close>. The pointers \<^verbatim>\<open>pl\<close>, \<^verbatim>\<open>pr\<close>, \<^verbatim>\<open>pi\<close>, \<^verbatim>\<open>pj\<close> are positions
  in \<^verbatim>\<open>tosort\<close> (\<open>p_i\<close> and \<open>p_j\<close> here). The two scans of the partition stop at the
  keys that the median-of-three step has put at both ends; the bounds in \<open>scan_up\<close> and
  \<open>scan_down\<close> only make the functions total. The outer loop runs on fuel, more than
  the number of ranges it can meet.
\<close>

definition SMALL_QUICKSORT :: nat where
  "SMALL_QUICKSORT = 16"

fun npy_get_msb :: "nat \<Rightarrow> nat" where
  "npy_get_msb n = (if n < 2 then 0 else Suc (npy_get_msb (n div 2)))"

definition INTP_SWAP :: "nat list \<Rightarrow> nat \<Rightarrow> nat \<Rightarrow> nat list" where
  "INTP_SWAP tosort i j = tosort[i := tosort ! j, j := tosort ! i]"

function scan_up :: "'a::linorder list \<Rightarrow> 'a \<Rightarrow> nat list \<Rightarrow> nat \<Rightarrow> nat" where
  "scan_up v vp tosort i =
     (if i < length tosort \<and> v ! (tosort ! i) < vp then scan_up v vp tosort (Suc i) else i)"
  by pat_completeness auto
termination
  by (relation "measure (\<lambda>(v, vp, tosort, i). length tosort - i)") auto

fun scan_down :: "'a::linorder list \<Rightarrow> 'a \<Rightarrow> nat list \<Rightarrow> nat \<Rightarrow> nat" where
  "scan_down v vp tosort 0 = 0"
| "scan_down v vp tosort (Suc j) =
     (if vp < v ! (tosort ! Suc j) then scan_down v vp tosort j else Suc j)"

function partition_loop ::
  "'a::linorder list \<Rightarrow> 'a \<Rightarrow> nat list \<Rightarrow> nat \<Rightarrow> nat \<Rightarrow> nat list \<times> nat" where
  "partition_loop v vp tosort p_i p_j =
     (let p_i' = scan_up v vp tosort (Suc p_i); p_j' = scan_down v vp tosort (p_j - 1)
      in if p_i' \<ge> p_j' then (tosort, p_i')
         else partition_loop v vp (INTP_SWAP tosort p_i' p_j') p_i' p_j')"
  by pat_completeness auto
termination
proof (relation "measure (\<lambda>(v, vp, tosort, p_i, p_j). p_j - p_i)", goal_cases)
  case 1
  then show ?case by simp
next
  case (2 v vp tosort p_i p_j p_i' p_j')
  have up: "i \<le> scan_up v vp tosort i" for i
    by (induction v vp tosort i rule: scan_up.induct) (metis Suc_leD scan_up.simps order_refl)
  have down: "scan_down v vp tosort j \<le> j" for j
    by (induction j) auto
  have "Suc p_i \<le> p_i'" using 2(1) up [of "Suc p_i"] by simp
  moreover have "p_j' \<le> p_j - 1" using 2(2) down [of "p_j - 1"] by simp
  ultimately show ?case using 2(3) by simp
qed

definition partition :: "'a::linorder list \<Rightarrow> nat list \<Rightarrow> nat \<Rightarrow> nat \<Rightarrow> nat list \<times> nat" where
  "partition v tosort pl pr =
     (let pm = pl + (pr - pl) div 2;
          tosort = (if v ! (tosort ! pm) < v ! (tosort ! pl) then INTP_SWAP tosort pm pl else tosort);
          tosort = (if v ! (tosort ! pr) < v ! (tosort ! pm) then INTP_SWAP tosort pr pm else tosort);
          tosort = (if v ! (tosort ! pm) < v ! (tosort ! pl) then INTP_SWAP tosort pm pl else tosort);
          vp = v ! (tosort ! pm);
          tosort = INTP_SWAP tosort pm (pr - 1);
          (tosort, p_i) = partition_loop v vp tosort pl (pr - 1)
      in (INTP_SWAP tosort p_i (pr - 1), p_i))"

fun insert_down ::
  "'a::linorder list \<Rightarrow> 'a \<Rightarrow> nat \<Rightarrow> nat list \<Rightarrow> nat \<Rightarrow> nat list \<times> nat" where
  "insert_down v vp pl tosort 0 = (tosort, 0)"
| "insert_down v vp pl tosort (Suc pk) =
     (if pl < Suc pk \<and> vp < v ! (tosort ! pk)
      then insert_down v vp pl (tosort[Suc pk := tosort ! pk]) pk
      else (tosort, Suc pk))"

definition insertion_sort :: "'a::linorder list \<Rightarrow> nat list \<Rightarrow> nat \<Rightarrow> nat \<Rightarrow> nat list" where
  "insertion_sort v tosort pl pr =
     fold (\<lambda>p_i tosort.
             let vi = tosort ! p_i;
                 (tosort, p_j) = insert_down v (v ! vi) pl tosort p_i
             in tosort[p_j := vi])
          [Suc pl..<Suc pr] tosort"

text \<open>
  \<^verbatim>\<open>aheapsort_\<close> on the \<open>n\<close> positions from \<open>pl\<close>; the source counts them from one
  (\<^verbatim>\<open>a = tosort - 1\<close>), so \<^verbatim>\<open>a[k]\<close> is the position \<open>pl + k - 1\<close> of \<^verbatim>\<open>tosort\<close>.
\<close>

function sift ::
  "'a::linorder list \<Rightarrow> nat \<Rightarrow> nat \<Rightarrow> nat list \<Rightarrow> nat \<Rightarrow> nat \<Rightarrow> nat \<Rightarrow> nat list \<times> nat" where
  "sift v tmp pl tosort n i j =
     (if 0 < j \<and> j \<le> n then
        (let j = (if j < n \<and> v ! (tosort ! (pl + j - 1)) < v ! (tosort ! (pl + j))
                  then j + 1 else j)
         in if v ! tmp < v ! (tosort ! (pl + j - 1))
            then sift v tmp pl (tosort[pl + i - 1 := tosort ! (pl + j - 1)]) n j (j + j)
            else (tosort, i))
      else (tosort, i))"
  by pat_completeness auto
termination
  by (relation "measure (\<lambda>(v, tmp, pl, tosort, n, i, j). Suc n - j)") auto

definition sift_down ::
  "'a::linorder list \<Rightarrow> nat \<Rightarrow> nat list \<Rightarrow> nat \<Rightarrow> nat \<Rightarrow> nat \<Rightarrow> nat list" where
  "sift_down v pl tosort n tmp l =
     (let (tosort, i) = sift v tmp pl tosort n l (l + l) in tosort[pl + i - 1 := tmp])"

fun heap_pop :: "'a::linorder list \<Rightarrow> nat \<Rightarrow> nat list \<Rightarrow> nat \<Rightarrow> nat list" where
  "heap_pop v pl tosort 0 = tosort"
| "heap_pop v pl tosort (Suc n) =
     (if n = 0 then tosort
      else let tmp = tosort ! (pl + n); tosort = tosort[pl + n := tosort ! pl]
           in heap_pop v pl (sift_down v pl tosort n tmp 1) n)"

definition aheapsort :: "'a::linorder list \<Rightarrow> nat list \<Rightarrow> nat \<Rightarrow> nat \<Rightarrow> nat list" where
  "aheapsort v tosort pl n =
     (let tosort = fold (\<lambda>l tosort. sift_down v pl tosort n (tosort ! (pl + l - 1)) l)
                        (rev [1..<Suc (n div 2)]) tosort
      in heap_pop v pl tosort n)"

text \<open>
  The loop of \<^verbatim>\<open>aquicksort_\<close>. \<open>partitioning\<close> tells that the loop is inside
  \<^verbatim>\<open>while ((pr - pl) > SMALL_QUICKSORT)\<close>, where the depth is not looked at; the stack holds
  the ranges put aside, each with the depth it was pushed at.
\<close>

fun aquicksort_loop ::
  "nat \<Rightarrow> 'a::linorder list \<Rightarrow> nat list \<Rightarrow> nat \<Rightarrow> nat \<Rightarrow> int \<Rightarrow> bool \<Rightarrow>
   (nat \<times> nat \<times> int) list \<Rightarrow> nat list option" where
  "aquicksort_loop 0 v tosort pl pr cdepth partitioning stack = None"
| "aquicksort_loop (Suc fuel) v tosort pl pr cdepth partitioning stack =
     (if \<not> partitioning \<and> cdepth < 0 then
        (let tosort = aheapsort v tosort pl (pr - pl + 1) in
         case stack of
           [] \<Rightarrow> Some tosort
         | (pl, pr, cdepth) # stack \<Rightarrow> aquicksort_loop fuel v tosort pl pr cdepth False stack)
      else if pr - pl > SMALL_QUICKSORT then
        (let (tosort, p_i) = partition v tosort pl pr in
         if p_i - pl < pr - p_i
         then aquicksort_loop fuel v tosort pl (p_i - 1) (cdepth - 1) True
                ((p_i + 1, pr, cdepth - 1) # stack)
         else aquicksort_loop fuel v tosort (p_i + 1) pr (cdepth - 1) True
                ((pl, p_i - 1, cdepth - 1) # stack))
      else
        (let tosort = insertion_sort v tosort pl pr in
         case stack of
           [] \<Rightarrow> Some tosort
         | (pl, pr, cdepth) # stack \<Rightarrow> aquicksort_loop fuel v tosort pl pr cdepth False stack))"

definition aquicksort :: "'a::linorder list \<Rightarrow> nat list option" where
  "aquicksort v =
     (if v = [] then Some []
      else aquicksort_loop (2 * length v + 1) v [0..<length v] 0 (length v - 1)
             (2 * int (npy_get_msb (length v))) False [])"

text \<open>
  The arrangement that \<^verbatim>\<open>sort_values\<close> gets when numpy sorts with \<^verbatim>\<open>aquicksort_\<close>:
  the positions of the rows with a key, as the algorithm arranges their keys, then the
  rows without a key.
\<close>

definition non_nans :: "'a option list \<Rightarrow> 'a list" where
  "non_nans ks = map the (filter (\<lambda>k. k \<noteq> None) ks)"

definition nargsort_quicksort :: "'a::linorder option list \<Rightarrow> nat list option" where
  "nargsort_quicksort ks =
     map_option (\<lambda>a. map (\<lambda>i. non_nan_idx ks ! i) a @ nan_idx ks) (aquicksort (non_nans ks))"

text \<open>
  \<^verbatim>\<open>groupby(key)\<close>: the row positions of each group, groups in ascending key order,
  rows without a key in no group.
\<close>

definition groupby_positions :: "'k::linorder option list \<Rightarrow> nat list list" where
  "groupby_positions ks =
     map (\<lambda>k. filter (\<lambda>i. ks ! i = Some k) [0..<length ks])
         (sort (remdups (concat (map (\<lambda>x. case x of None \<Rightarrow> [] | Some k \<Rightarrow> [k]) ks))))"

fun groups :: "column \<Rightarrow> nat list list" where
  "groups (Numeric ks) = groupby_positions ks"
| "groups (Datetime ks) = groupby_positions ks"
| "groups (Text ks) = groupby_positions ks"

text \<open>
  \<^verbatim>\<open>groupby(key)[col].shift(freq=f'{hours}H')\<close>: within each group the index labels move
  forward by the offset and the values stay with their rows; the shifted groups are
  concatenated. Only a datetime index can be shifted by a frequency. When no row has a
  key there is no group: pandas then builds an empty result for the frame's index, which
  fails unless the frame has no rows.
\<close>

definition groupby_shift_freq ::
  "index \<Rightarrow> nat list list \<Rightarrow> 'a list \<Rightarrow> int \<Rightarrow> py_error + (int \<times> 'a) list" where
  "groupby_shift_freq idx gs values hours =
     (if gs = [] then
        (if labels idx = [] then Inr []
         else Inl (PyError ''ValueError'' ''Length of values does not match length of index''))
      else case idx of
        IntegerIndex ls \<Rightarrow> Inl (PyError ''NotImplementedError'' [])
      | DatetimeIndex ls \<Rightarrow>
          Inr (concat (map (map (\<lambda>i. (ls ! i + hours * ns_per_hour, values ! i))) gs)))"

text \<open>
  \<^verbatim>\<open>df[c] = series\<close>: a series whose index equals the frame's is taken as it stands;
  otherwise it is reindexed by the frame's labels, which fails when the series has a
  label twice and leaves a missing value where the series has no such label.
\<close>

definition reindex_for_setitem ::
  "index \<Rightarrow> (int \<times> 'a option) list \<Rightarrow> py_error + 'a option list" where
  "reindex_for_setitem idx series =
     (if map fst series = labels idx then Inr (map snd series)
      else if \<not> distinct (map fst series) then
        Inl (PyError ''ValueError'' ''cannot reindex on an axis with duplicate labels'')
      else Inr (map (\<lambda>l. case map_of series l of None \<Rightarrow> None | Some v \<Rightarrow> v) (labels idx)))"

definition shifted ::
  "index \<Rightarrow> nat list list \<Rightarrow> 'a option list \<Rightarrow> int \<Rightarrow> py_error + 'a option list" where
  "shifted idx gs values hours =
     (case groupby_shift_freq idx gs values hours of
        Inl e \<Rightarrow> Inl e
      | Inr series \<Rightarrow> reindex_for_setitem idx series)"

fun shifted_column :: "index \<Rightarrow> nat list list \<Rightarrow> column \<Rightarrow> int \<Rightarrow> py_error + column" where
  "shifted_column idx gs (Numeric xs) hours = map_sum id Numeric (shifted idx gs xs hours)"
| "shifted_column idx gs (Datetime xs) hours = map_sum id Datetime (shifted idx gs xs hours)"
| "shifted_column idx gs (Text xs) hours = map_sum id Text (shifted idx gs xs hours)"

text \<open>
  \<^verbatim>\<open>rolling(window=w, min_periods=1)\<close> with an integer window: at each row of the group
  the window holds the last \<open>w\<close> rows of the group up to that row; missing values do not
  count as observations. The mean needs one observation, the standard deviation (one
  degree of freedom fewer) two.
\<close>

definition observations :: "real option list \<Rightarrow> real list" where
  "observations xs = concat (map (\<lambda>x. case x of None \<Rightarrow> [] | Some v \<Rightarrow> [v]) xs)"

definition rolling :: "nat \<Rightarrow> 'a list \<Rightarrow> 'a list list" where
  "rolling window xs = map (\<lambda>r. drop (Suc r - window) (take (Suc r) xs)) [0..<length xs]"

definition mean :: "real option list \<Rightarrow> real option" where
  "mean xs = (let obs = observations xs in
                if length obs < 1 then None else Some (sum_list obs / real (length obs)))"

definition std :: "real option list \<Rightarrow> real option" where
  "std xs = (let obs = observations xs; m = sum_list obs / real (length obs) in
               if length obs < 2 then None
               else Some (sqrt (sum_list (map (\<lambda>x. (x - m)\<^sup>2) obs) / real (length obs - 1))))"

text \<open>\<^verbatim>\<open>groupby(key)[col].transform(f)\<close>: \<open>f\<close> maps each group's values to as many
  results, which go back to the rows of the group; rows in no group get a missing value.\<close>

definition transform ::
  "nat list list \<Rightarrow> (real option list \<Rightarrow> real option list) \<Rightarrow> real option list \<Rightarrow> real option list" where
  "transform gs f xs =
     (let results = concat (map (\<lambda>g. zip g (f (take_positions xs g))) gs)
      in map (\<lambda>i. case map_of results i of None \<Rightarrow> None | Some v \<Rightarrow> v) [0..<length xs])"

text \<open>\<^verbatim>\<open>df[key].map(groupby(key)[col].agg())\<close>: every row gets the aggregate of its
  group.\<close>

definition broadcast ::
  "nat list list \<Rightarrow> (real option list \<Rightarrow> real option) \<Rightarrow> real option list \<Rightarrow> real option list" where
  "broadcast gs agg xs = transform gs (\<lambda>g. map (\<lambda>_. agg g) g) xs"

subsection \<open>TransitFeatureEngine\<close>

definition flag :: "bool \<Rightarrow> real option" where
  "flag b = Some (if b then 1 else 0)"

definition between :: "int option \<Rightarrow> int \<Rightarrow> int \<Rightarrow> bool" where
  "between x lo hi = (case x of None \<Rightarrow> False | Some v \<Rightarrow> lo \<le> v \<and> v \<le> hi)"

definition cyclical :: "(real \<Rightarrow> real) \<Rightarrow> int option \<Rightarrow> real \<Rightarrow> real option" where
  "cyclical f x period = map_option (\<lambda>v. f (2 * pi * real_of_int v / period)) x"

definition add_temporal_features :: "frame \<Rightarrow> py_error + frame" where
  "add_temporal_features df =
     (case get_column df Timestamp of
        None \<Rightarrow> Inr df
      | Some (Datetime ts) \<Rightarrow>
          (let hour = map (map_option dt_hour) ts;
               day_of_week = map (map_option dt_dayofweek) ts;
               is_morning_peak = map (\<lambda>h. between h 7 9) hour;
               is_evening_peak = map (\<lambda>h. between h 16 18) hour;
               num = (\<lambda>xs. Numeric (map (map_option real_of_int) xs));
               df = set_column df Hour (num hour);
               df = set_column df Day_of_week (num day_of_week);
               df = set_column df Day_of_month (num (map (map_option dt_day) ts));
               df = set_column df Month (num (map (map_option dt_month) ts));
               df = set_column df Is_weekend
                      (Numeric (map (\<lambda>d. flag (d = Some 5 \<or> d = Some 6)) day_of_week));
               df = set_column df Is_morning_peak (Numeric (map flag is_morning_peak));
               df = set_column df Is_evening_peak (Numeric (map flag is_evening_peak));
               df = set_column df Is_peak_hour
                      (Numeric (map (\<lambda>(m, e). flag (m \<or> e)) (zip is_morning_peak is_evening_peak)));
               df = set_column df Hour_sin (Numeric (map (\<lambda>h. cyclical sin h 24) hour));
               df = set_column df Hour_cos (Numeric (map (\<lambda>h. cyclical cos h 24) hour));
               df = set_column df Dow_sin (Numeric (map (\<lambda>d. cyclical sin d 7) day_of_week));
               df = set_column df Dow_cos (Numeric (map (\<lambda>d. cyclical cos d 7) day_of_week))
           in Inr df)
      | Some _ \<Rightarrow>
          Inl (PyError ''AttributeError'' ''Can only use .dt accessor with datetimelike values''))"

definition total_minutes :: "int option \<Rightarrow> int option \<Rightarrow> real option" where
  "total_minutes expected aimed =
     (case (expected, aimed) of
        (Some e, Some a) \<Rightarrow> Some (real_of_int (e - a) / real_of_int ns_per_second / 60)
      | _ \<Rightarrow> None)"

definition add_delay_features ::
  "(cell \<Rightarrow> py_error + int option) \<Rightarrow> frame \<Rightarrow> py_error + frame" where
  "add_delay_features parse df =
     (if Delay_seconds \<in> set (column_names df) then
        (case get_column df Delay_seconds of
           Some (Numeric xs) \<Rightarrow>
             Inr (set_column df Delay_minutes (Numeric (map (map_option (\<lambda>x. x / 60)) xs)))
         | _ \<Rightarrow> Inl (PyError ''TypeError'' []))
      else if Aimed_arrival \<in> set (column_names df) \<and> Expected_arrival \<in> set (column_names df)
      then
        (case (case get_column df Aimed_arrival of
                 None \<Rightarrow> Inl (PyError ''KeyError'' []) | Some c \<Rightarrow> to_datetime parse c) of
           Inl e \<Rightarrow> Inl e
         | Inr aimed \<Rightarrow>
             (let df = set_column df Aimed_arrival (Datetime aimed) in
              case (case get_column df Expected_arrival of
                      None \<Rightarrow> Inl (PyError ''KeyError'' []) | Some c \<Rightarrow> to_datetime parse c) of
                Inl e \<Rightarrow> Inl e
              | Inr expected \<Rightarrow>
                  (let df = set_column df Expected_arrival (Datetime expected) in
                   Inr (set_column df Delay_minutes
                          (Numeric (map (\<lambda>(e, a). total_minutes e a) (zip expected aimed)))))))
      else Inr df)"

text \<open>The loop over \<^verbatim>\<open>self.lag_hours\<close> and the loop over the windows 3, 6 and 12.\<close>

fun lag_loop :: "int list \<Rightarrow> frame \<Rightarrow> py_error + frame" where
  "lag_loop [] df = Inr df"
| "lag_loop (hours # rest) df =
     (case (get_column df Route_id, get_column df Delay_minutes) of
        (Some route_id, Some delay_minutes) \<Rightarrow>
          (case shifted_column (index df) (groups route_id) delay_minutes hours of
             Inl e \<Rightarrow> Inl e
           | Inr lag \<Rightarrow> lag_loop rest (set_column df (Delay_lag hours) lag))
      | _ \<Rightarrow> Inl (PyError ''KeyError'' []))"

fun rolling_loop :: "nat list \<Rightarrow> frame \<Rightarrow> py_error + frame" where
  "rolling_loop [] df = Inr df"
| "rolling_loop (window # rest) df =
     (case (get_column df Route_id, get_column df Delay_minutes) of
        (Some route_id, Some (Numeric x)) \<Rightarrow>
          (let df = set_column df (Delay_rolling_mean (int window))
                      (Numeric (transform (groups route_id) (\<lambda>x. map mean (rolling window x)) x));
               df = set_column df (Delay_rolling_std (int window))
                      (Numeric (transform (groups route_id) (\<lambda>x. map std (rolling window x)) x))
           in rolling_loop rest df)
      | (Some route_id, Some other) \<Rightarrow>
          (if groups route_id = [] then
             (let df = set_column df (Delay_rolling_mean (int window))
                         (Numeric (map (\<lambda>_. None) (cells other)));
                  df = set_column df (Delay_rolling_std (int window))
                         (Numeric (map (\<lambda>_. None) (cells other)))
              in rolling_loop rest df)
           else Inl (PyError ''DataError'' ''No numeric types to aggregate''))
      | _ \<Rightarrow> Inl (PyError ''KeyError'' []))"

definition add_lag_features :: "int list \<Rightarrow> frame \<Rightarrow> py_error + frame" where
  "add_lag_features lag_hours df =
     (if Delay_minutes \<notin> set (column_names df) \<or> Route_id \<notin> set (column_names df) then Inr df
      else case lag_loop lag_hours df of
             Inl e \<Rightarrow> Inl e
           | Inr df \<Rightarrow> rolling_loop [3, 6, 12] df)"

definition add_route_features :: "frame \<Rightarrow> py_error + frame" where
  "add_route_features df =
     (if Route_id \<notin> set (column_names df) then Inr df
      else case (get_column df Route_id, get_column df Delay_minutes) of
        (Some route_id, Some (Numeric x)) \<Rightarrow>
          (let df = set_column df Route_avg_delay (Numeric (broadcast (groups route_id) mean x));
               df = set_column df Route_delay_std (Numeric (broadcast (groups route_id) std x))
           in Inr df)
      | (Some route_id, Some other) \<Rightarrow> Inl (PyError ''TypeError'' [])
      | _ \<Rightarrow> Inl (PyError ''KeyError'' ''Column not found: delay_minutes''))"

definition add_weather_features :: "frame \<Rightarrow> py_error + frame" where
  "add_weather_features df =
     (let df = set_column df Temperature (Numeric (replicate (nrows df) None));
          df = set_column df Precipitation (Numeric (replicate (nrows df) None));
          df = set_column df Is_rainy (Numeric (replicate (nrows df) (Some 0)))
      in Inr df)"

definition add_event_features :: "frame \<Rightarrow> py_error + frame" where
  "add_event_features df =
     (let df = set_column df Is_holiday (Numeric (replicate (nrows df) (Some 0)));
          df = set_column df Nearby_event (Numeric (replicate (nrows df) (Some 0)))
      in Inr df)"

text \<open>
  Frames are objects: a heap holds them and a reference is a position in it.
  \<^verbatim>\<open>df.copy()\<close> and \<^verbatim>\<open>sort_values\<close> make a new object; a column assignment changes
  the object it is applied to. Each \<^verbatim>\<open>_add_*_features(df)\<close> assigns columns of the
  object it is given and returns it; if it raises, the object stays as the last
  completed step left it.
\<close>

type_synonym heap = "frame list"

definition copy :: "heap \<Rightarrow> nat \<Rightarrow> heap \<times> nat" where
  "copy h df = (h @ [h ! df], length h)"

definition in_place ::
  "(frame \<Rightarrow> py_error + frame) \<Rightarrow> heap \<times> (py_error + nat) \<Rightarrow> heap \<times> (py_error + nat)" where
  "in_place f s =
     (case s of
        (h, Inl e) \<Rightarrow> (h, Inl e)
      | (h, Inr df) \<Rightarrow>
          (case f (h ! df) of
             Inl e \<Rightarrow> (h, Inl e)
           | Inr df' \<Rightarrow> (h[df := df'], Inr df)))"

text \<open>The default of \<^verbatim>\<open>TransitFeatureEngine.__init__\<close>.\<close>

definition default_lag_hours :: "int list" where
  "default_lag_hours = [1, 3, 24, 168]"

text \<open>The body of \<^verbatim>\<open>create_features\<close> after the sort.\<close>

definition feature_steps ::
  "(cell \<Rightarrow> py_error + int option) \<Rightarrow> int list \<Rightarrow> bool \<Rightarrow> bool \<Rightarrow>
   heap \<times> (py_error + nat) \<Rightarrow> heap \<times> (py_error + nat)" where
  "feature_steps parse lag_hours include_weather include_events s =
     (let s = in_place add_temporal_features s;
          s = in_place (add_delay_features parse) s;
          s = in_place (add_lag_features lag_hours) s;
          s = in_place add_route_features s;
          s = (if include_weather then in_place add_weather_features s else s);
          s = (if include_events then in_place add_event_features s else s)
      in s)"

inductive create_features ::
  "(cell \<Rightarrow> py_error + int option) \<Rightarrow> int list \<Rightarrow> bool \<Rightarrow> bool \<Rightarrow>
   heap \<Rightarrow> nat \<Rightarrow> heap \<times> (py_error + nat) \<Rightarrow> bool"
  for parse lag_hours include_weather include_events where
  no_timestamp:
    "copy h df = (h1, c) \<Longrightarrow> get_column (h1 ! c) Timestamp = None \<Longrightarrow>
     create_features parse lag_hours include_weather include_events h df
       (feature_steps parse lag_hours include_weather include_events (h1, Inr c))"
| bad_timestamp:
    "copy h df = (h1, c) \<Longrightarrow> get_column (h1 ! c) Timestamp = Some col \<Longrightarrow>
     to_datetime parse col = Inl e \<Longrightarrow>
     create_features parse lag_hours include_weather include_events h df (h1, Inl e)"
| sorted_by_timestamp:
    "copy h df = (h1, c) \<Longrightarrow> get_column (h1 ! c) Timestamp = Some col \<Longrightarrow>
     to_datetime parse col = Inr ts \<Longrightarrow>
     h2 = h1[c := set_column (h1 ! c) Timestamp (Datetime ts)] \<Longrightarrow>
     sort_values (h2 ! c) Timestamp sorted_df \<Longrightarrow>
     create_features parse lag_hours include_weather include_events h df
       (feature_steps parse lag_hours include_weather include_events
          (h2 @ [sorted_df], Inr (length h2)))"

subsection \<open>The lag feature in the words of the specification\<close>

text \<open>
  The most recent delay value of the same route at a time at most \<open>T - H\<close> hours, unknown
  if that route has no such observation: among the rows of the route of row \<open>i\<close> whose
  time is at most the time of row \<open>i\<close> less \<open>hours\<close>, the value of the latest.
\<close>

definition spec_lag ::
  "int list \<Rightarrow> 'k option list \<Rightarrow> real option list \<Rightarrow> int \<Rightarrow> nat \<Rightarrow> real option" where
  "spec_lag tm route delay hours i =
     (let earlier = filter (\<lambda>j. route ! j \<noteq> None \<and> route ! j = route ! i
                                 \<and> tm ! j \<le> tm ! i - hours * ns_per_hour)
                           [0..<length tm];
          latest = filter (\<lambda>j. \<forall>k \<in> set earlier. tm ! k \<le> tm ! j) earlier
      in case latest of [] \<Rightarrow> None | j # _ \<Rightarrow> delay ! j)"

text \<open>A reader of two ISO texts for examples: eight o'clock and five past eight on
  1 January 2024.\<close>

definition parse_example :: "cell \<Rightarrow> py_error + int option" where
  "parse_example c =
     (if c = Str ''2024-01-01T08:00:00'' then Inr (Some (1704096000 * ns_per_second))
      else if c = Str ''2024-01-01T08:05:00'' then Inr (Some (1704096300 * ns_per_second))
      else Inl (PyError ''ValueError'' []))"

text \<open>An estimator for examples: its state is the list of raw outputs it returns.\<close>

definition table_sklearn :: "real list sklearn" where
  "table_sklearn =
     \<lparr>RandomForestRegressor = [], GradientBoostingRegressor = [],
      sk_predict = (\<lambda>e X. Inr (take (nrows X) e)),
      sk_estimators = (\<lambda>e. None),
      sk_feature_importances = (\<lambda>e. None)\<rparr>"

section \<open>Properties of the predictor\<close>

lemma np_clip_bounds:
  assumes "p \<in> set (np_clip a lo hi)" and "lo \<le> hi"
  shows "lo \<le> p \<and> p \<le> hi"
  using assms by (auto simp: np_clip_def)

text \<open>
  Claim C2. Whatever the estimator returns, every value that \<^verbatim>\<open>predict\<close> returns lies
  in the closed interval from -10 to 60 minutes.
\<close>

theorem predict_clamped:
  assumes "predict sk self X = Inr predictions" and "p \<in> set predictions"
  shows "- 10 \<le> p \<and> p \<le> 60"
proof -
  from assms(1) obtain raw where "predictions = np_clip raw (- 10) 60"
    by (auto simp: predict_def split: if_splits sum.splits option.splits)
  with assms(2) show ?thesis
    using np_clip_bounds [of p raw "- 10" 60] by simp
qed

theorem predict_clamped_witness:
  "predict table_sklearn
     \<lparr>model_type = ''random_forest'', model = [- 50, 200, 3],
      feature_names = Some [Hour], is_trained = True\<rparr>
     \<lparr>index = IntegerIndex [0, 1, 2], columns = [(Hour, Numeric [Some 7, Some 8, Some 9])]\<rparr>
   = Inr [- 10, 60, 3] \<and> - 10 \<le> (60::real) \<and> (60::real) \<le> 60"
proof -
  have h: "predict table_sklearn
     \<lparr>model_type = ''random_forest'', model = [- 50, 200, 3],
      feature_names = Some [Hour], is_trained = True\<rparr>
     \<lparr>index = IntegerIndex [0, 1, 2], columns = [(Hour, Numeric [Some 7, Some 8, Some 9])]\<rparr>
   = Inr [- 10, 60, 3]"
    by (simp add: predict_def table_sklearn_def column_names_def nrows_def np_clip_def)
  from predict_clamped [OF h, of 60] h show ?thesis by simp
qed

text \<open>
  Claim C3, as amended. On a freshly constructed predictor each of \<^verbatim>\<open>predict\<close>,
  \<^verbatim>\<open>predict_with_confidence\<close>, \<^verbatim>\<open>get_feature_importance\<close> and \<^verbatim>\<open>save\<close> raises
  a \<^verbatim>\<open>ValueError\<close> that names the missing training; none of them succeeds, and the
  error is the only result.
\<close>

theorem untrained_operations_raise:
  assumes "init sk mt = Inr self"
  shows "predict sk self X =
           Inl (PyError ''ValueError'' ''Model must be trained before making predictions'')
       \<and> predict_with_confidence sk self X =
           Inl (PyError ''ValueError'' ''Model must be trained before making predictions'')
       \<and> get_feature_importance sk self r =
           (r = Inl (PyError ''ValueError'' ''Model must be trained first''))
       \<and> save self path fs = Inl (PyError ''ValueError'' ''Cannot save untrained model'')"
proof -
  from assms have u: "\<not> is_trained self"
    by (auto simp: init_def split: if_splits)
  have "get_feature_importance sk self r =
           (r = Inl (PyError ''ValueError'' ''Model must be trained first''))"
    using u by (auto intro: get_feature_importance.untrained elim: get_feature_importance.cases)
  with u show ?thesis
    by (simp add: predict_def predict_with_confidence_def save_def)
qed

theorem untrained_operations_raise_witness:
  "init table_sklearn ''random_forest'' =
     Inr \<lparr>model_type = ''random_forest'', model = [], feature_names = None, is_trained = False\<rparr>
   \<and> save \<lparr>model_type = ''random_forest'', model = [] :: real list, feature_names = None, is_trained = False\<rparr>
        ''model.pkl'' Map.empty = Inl (PyError ''ValueError'' ''Cannot save untrained model'')"
proof -
  have h: "init table_sklearn ''random_forest'' =
     Inr \<lparr>model_type = ''random_forest'', model = [], feature_names = None, is_trained = False\<rparr>"
    by (simp add: init_def table_sklearn_def)
  note t = untrained_operations_raise [OF h, where path = "''model.pkl''" and fs = Map.empty]
  from t [THEN conjunct2, THEN conjunct2, THEN conjunct2] h show ?thesis
    by (intro conjI)
qed

text \<open>
  The class of the exception that an untrained \<^verbatim>\<open>predict\<close> raises is
  \<^verbatim>\<open>ValueError\<close>, not \<^verbatim>\<open>NotTrainedError\<close>.
\<close>

theorem untrained_error_class_counterexample:
  "init table_sklearn ''random_forest'' =
     Inr \<lparr>model_type = ''random_forest'', model = [], feature_names = None, is_trained = False\<rparr>
   \<and> predict table_sklearn
        \<lparr>model_type = ''random_forest'', model = [], feature_names = None, is_trained = False\<rparr>
        \<lparr>index = IntegerIndex [0], columns = [(Hour, Numeric [Some 8])]\<rparr>
      = Inl (PyError ''ValueError'' ''Model must be trained before making predictions'')
   \<and> exc_class (PyError ''ValueError'' ''Model must be trained before making predictions'')
      \<noteq> ''NotTrainedError''"
  by (simp add: init_def table_sklearn_def predict_def)

lemma filter_key_distinct:
  assumes "distinct (map fst cols)" and "n \<in> set (map fst cols)"
  shows "filter (\<lambda>kv. fst kv = n) cols = [(n, the (map_of cols n))]"
  using assms
proof (induction cols)
  case Nil
  then show ?case by simp
next
  case (Cons kv cols)
  obtain k v where kv: "kv = (k, v)" by (cases kv)
  show ?case
  proof (cases "k = n")
    case True
    with Cons.prems kv have "\<forall>x \<in> set cols. fst x \<noteq> n" by auto
    then have "filter (\<lambda>kv. fst kv = n) cols = []" by (simp add: filter_empty_conv)
    with True kv show ?thesis by simp
  next
    case False
    with Cons kv show ?thesis by auto
  qed
qed

lemma select_columns_present:
  assumes "distinct (column_names X)" and "set names \<subseteq> set (column_names X)"
  shows "select_columns X names =
           Inr (X\<lparr>columns := map (\<lambda>n. (n, the (get_column X n))) names\<rparr>)"
proof -
  have "concat (map (\<lambda>n. filter (\<lambda>kv. fst kv = n) (columns X)) names)
        = map (\<lambda>n. (n, the (map_of (columns X) n))) names"
    using assms(2)
  proof (induction names)
    case Nil
    then show ?case by simp
  next
    case (Cons n names)
    then have "n \<in> set (map fst (columns X))" by (simp add: column_names_def)
    with assms(1) have "filter (\<lambda>kv. fst kv = n) (columns X) = [(n, the (map_of (columns X) n))]"
      by (simp add: filter_key_distinct column_names_def)
    with Cons show ?case by simp
  qed
  with assms(2) show ?thesis
    by (auto simp: select_columns_def get_column_def)
qed

lemma select_columns_identity:
  assumes "distinct (map fst cols)"
  shows "map (\<lambda>n. (n, the (map_of cols n))) (map fst cols) = cols"
  using assms
proof (induction cols)
  case Nil
  then show ?case by simp
next
  case (Cons kv cols)
  have "map (\<lambda>n. (n, the (map_of (kv # cols) n))) (map fst cols)
        = map (\<lambda>n. (n, the (map_of cols n))) (map fst cols)"
    using Cons.prems by (intro map_cong) (auto simp: image_iff)
  with Cons show ?case by (cases kv) simp
qed

text \<open>
  Claim C7, as amended. For a trained predictor and a table with distinct column names:
  when the table has every feature of the stored contract (in any order, with any further
  columns), the estimator receives exactly the contract's columns in the contract's order
  and \<^verbatim>\<open>predict\<close> returns its clipped output; when a feature is absent,
  \<^verbatim>\<open>predict\<close> fails with the \<^verbatim>\<open>KeyError\<close> of the column selection and the
  estimator is not consulted.
\<close>

theorem predict_feature_contract:
  assumes "is_trained self" and "feature_names self = Some names"
    and "distinct (column_names X)"
  shows "(set names \<subseteq> set (column_names X) \<longrightarrow>
            predict sk self X =
              (case sk_predict sk (model self)
                      (X\<lparr>columns := map (\<lambda>n. (n, the (get_column X n))) names\<rparr>) of
                 Inl e \<Rightarrow> Inl e
               | Inr raw \<Rightarrow> Inr (np_clip raw (- 10) 60)))
       \<and> (\<not> set names \<subseteq> set (column_names X) \<longrightarrow>
            predict sk self X = Inl (PyError ''KeyError'' []))"
proof (intro conjI impI)
  assume sub: "set names \<subseteq> set (column_names X)"
  show "predict sk self X =
          (case sk_predict sk (model self)
                  (X\<lparr>columns := map (\<lambda>n. (n, the (get_column X n))) names\<rparr>) of
             Inl e \<Rightarrow> Inl e
           | Inr raw \<Rightarrow> Inr (np_clip raw (- 10) 60))"
  proof (cases "column_names X = names")
    case True
    with assms(3) have "X\<lparr>columns := map (\<lambda>n. (n, the (get_column X n))) names\<rparr> = X"
      using select_columns_identity [of "columns X"]
      by (simp add: column_names_def get_column_def)
    with True assms(1,2) show ?thesis by (simp add: predict_def)
  next
    case False
    with assms sub show ?thesis
      by (simp add: predict_def select_columns_present)
  qed
next
  assume "\<not> set names \<subseteq> set (column_names X)"
  then have "column_names X \<noteq> names" by auto
  with assms \<open>\<not> set names \<subseteq> set (column_names X)\<close> show "predict sk self X = Inl (PyError ''KeyError'' [])"
    by (auto simp: predict_def select_columns_def)
qed

theorem predict_feature_contract_witness:
  "predict table_sklearn
     \<lparr>model_type = ''random_forest'', model = [5, 70], feature_names = Some [Hour, Month],
      is_trained = True\<rparr>
     \<lparr>index = IntegerIndex [0, 1],
      columns = [(Month, Numeric [Some 1, Some 2]), (Other ''extra'', Text [None, None]),
                 (Hour, Numeric [Some 7, Some 8])]\<rparr>
   = Inr [5, 60]
   \<and> predict table_sklearn
     \<lparr>model_type = ''random_forest'', model = [5, 70], feature_names = Some [Hour, Month],
      is_trained = True\<rparr>
     \<lparr>index = IntegerIndex [0, 1], columns = [(Month, Numeric [Some 1, Some 2])]\<rparr>
   = Inl (PyError ''KeyError'' [])"
proof -
  let ?m = "\<lparr>model_type = ''random_forest'', model = [5, 70] :: real list,
             feature_names = Some [Hour, Month], is_trained = True\<rparr>"
  let ?X = "\<lparr>index = IntegerIndex [0, 1],
      columns = [(Month, Numeric [Some 1, Some 2]), (Other ''extra'', Text [None, None]),
                 (Hour, Numeric [Some 7, Some 8])]\<rparr>"
  let ?Y = "\<lparr>index = IntegerIndex [0, 1], columns = [(Month, Numeric [Some 1, Some 2])]\<rparr>"
  have a: "predict table_sklearn ?m ?X = Inr [5, 60]"
    using predict_feature_contract [of ?m "[Hour, Month]" ?X table_sklearn]
    by (simp add: column_names_def get_column_def table_sklearn_def nrows_def np_clip_def)
  have b: "predict table_sklearn ?m ?Y = Inl (PyError ''KeyError'' [])"
    using predict_feature_contract [of ?m "[Hour, Month]" ?Y table_sklearn]
    by (simp add: column_names_def)
  from a b show ?thesis by simp
qed

text \<open>
  The exception for an absent feature is a \<^verbatim>\<open>KeyError\<close>, not a
  \<^verbatim>\<open>FeatureMismatchError\<close>.
\<close>

theorem missing_feature_error_class_counterexample:
  "predict table_sklearn
     \<lparr>model_type = ''random_forest'', model = [5, 70], feature_names = Some [Hour, Month],
      is_trained = True\<rparr>
     \<lparr>index = IntegerIndex [0, 1], columns = [(Month, Numeric [Some 1, Some 2])]\<rparr>
   = Inl (PyError ''KeyError'' [])
   \<and> exc_class (PyError ''KeyError'' []) \<noteq> ''FeatureMismatchError''"
  by (simp add: predict_def select_columns_def column_names_def)

section \<open>Properties of the feature engine\<close>

lemma get_set_column:
  "get_column (set_column df c v) c' = (if c' = c then Some v else get_column df c')"
  by (simp add: get_column_def set_column_def update_conv')

lemma index_set_column: "index (set_column df c v) = index df"
  by (simp add: set_column_def)

lemma get_column_in_names: "get_column df c = Some v \<Longrightarrow> c \<in> set (column_names df)"
  by (auto simp: get_column_def column_names_def dest: map_of_SomeD intro: rev_image_eqI)

lemma names_get_column: "c \<in> set (column_names df) \<Longrightarrow> \<exists>v. get_column df c = Some v"
  by (cases "get_column df c") (auto simp: get_column_def column_names_def map_of_eq_None_iff)

text \<open>
  Claim C10. For a table with a timestamp column the engine sets, row by row,
  \<^verbatim>\<open>is_morning_peak\<close> to 1 when the hour of day is between 7 and 9 inclusive and to 0
  otherwise, \<^verbatim>\<open>is_evening_peak\<close> to 1 when it is between 16 and 18 inclusive and to 0
  otherwise, and \<^verbatim>\<open>is_peak_hour\<close> to 1 when one of the two holds and to 0 otherwise; a
  row without an instant gets 0 in all three.
\<close>

theorem peak_flags:
  assumes "get_column df Timestamp = Some (Datetime ts)"
  shows "\<exists>out. add_temporal_features df = Inr out
     \<and> get_column out Hour = Some (Numeric (map (map_option (\<lambda>t. real_of_int (dt_hour t))) ts))
     \<and> get_column out Is_morning_peak =
         Some (Numeric (map (\<lambda>t. Some (if (case t of None \<Rightarrow> False
                                           | Some t \<Rightarrow> 7 \<le> dt_hour t \<and> dt_hour t \<le> 9)
                                      then 1 else 0)) ts))
     \<and> get_column out Is_evening_peak =
         Some (Numeric (map (\<lambda>t. Some (if (case t of None \<Rightarrow> False
                                           | Some t \<Rightarrow> 16 \<le> dt_hour t \<and> dt_hour t \<le> 18)
                                      then 1 else 0)) ts))
     \<and> get_column out Is_peak_hour =
         Some (Numeric (map (\<lambda>t. Some (if (case t of None \<Rightarrow> False
                                           | Some t \<Rightarrow> (7 \<le> dt_hour t \<and> dt_hour t \<le> 9)
                                                   \<or> (16 \<le> dt_hour t \<and> dt_hour t \<le> 18))
                                      then 1 else 0)) ts))"
proof -
  have b: "between (map_option dt_hour t) lo hi
           = (case t of None \<Rightarrow> False | Some t \<Rightarrow> lo \<le> dt_hour t \<and> dt_hour t \<le> hi)" for t lo hi
    by (cases t) (simp_all add: between_def)
  have z: "map (\<lambda>(m, e). F m e) (zip (map f ts) (map g ts)) = map (\<lambda>t. F (f t) (g t)) ts"
    for f g :: "int option \<Rightarrow> bool" and F :: "bool \<Rightarrow> bool \<Rightarrow> real option"
    by (induction ts) simp_all
  have p: "flag ((case t of None \<Rightarrow> False | Some t \<Rightarrow> P t) \<or> (case t of None \<Rightarrow> False | Some t \<Rightarrow> Q t))
           = Some (if (case t of None \<Rightarrow> False | Some t \<Rightarrow> P t \<or> Q t) then 1 else 0)"
    for t :: "int option" and P Q
    by (cases t) (simp_all add: flag_def)
  have q: "flag (case t of None \<Rightarrow> False | Some t \<Rightarrow> P t)
           = Some (if (case t of None \<Rightarrow> False | Some t \<Rightarrow> P t) then 1 else 0)"
    for t :: "int option" and P
    by (simp add: flag_def)
  show ?thesis
    using assms
    by (simp add: add_temporal_features_def Let_def get_set_column o_def b z p q
                  option.map_comp)
qed

theorem peak_flags_witness:
  "\<exists>out. add_temporal_features
       \<lparr>index = IntegerIndex [0, 1, 2, 3],
        columns = [(Timestamp, Datetime [Some (7 * ns_per_hour), Some (10 * ns_per_hour),
                                         Some (18 * ns_per_hour + 1), None])]\<rparr> = Inr out
     \<and> get_column out Is_morning_peak = Some (Numeric [Some 1, Some 0, Some 0, Some 0])
     \<and> get_column out Is_evening_peak = Some (Numeric [Some 0, Some 0, Some 1, Some 0])
     \<and> get_column out Is_peak_hour = Some (Numeric [Some 1, Some 0, Some 1, Some 0])"
proof -
  let ?ts = "[Some (7 * ns_per_hour), Some (10 * ns_per_hour), Some (18 * ns_per_hour + 1), None]"
  let ?df = "\<lparr>index = IntegerIndex [0, 1, 2, 3], columns = [(Timestamp, Datetime ?ts)]\<rparr>"
  have g: "get_column ?df Timestamp = Some (Datetime ?ts)"
    by (simp add: get_column_def)
  have h: "dt_hour (7 * ns_per_hour) = 7" "dt_hour (10 * ns_per_hour) = 10"
    "dt_hour (18 * ns_per_hour + 1) = 18"
    by (simp_all add: dt_hour_def ns_per_hour_def ns_per_second_def)
  from peak_flags [OF g] obtain out where
    "add_temporal_features ?df = Inr out"
    "get_column out Is_morning_peak = Some (Numeric [Some 1, Some 0, Some 0, Some 0])"
    "get_column out Is_evening_peak = Some (Numeric [Some 0, Some 0, Some 1, Some 0])"
    "get_column out Is_peak_hour = Some (Numeric [Some 1, Some 0, Some 1, Some 0])"
    by (auto simp: h)
  then show ?thesis by blast
qed

lemma in_place_keeps:
  assumes "take (length h) (fst s) = h" and "\<forall>r. snd s = Inr r \<longrightarrow> length h \<le> r"
  shows "take (length h) (fst (in_place f s)) = h
       \<and> (\<forall>r. snd (in_place f s) = Inr r \<longrightarrow> length h \<le> r)"
proof (cases s)
  case (Pair h' res)
  show ?thesis
  proof (cases res)
    case (Inl e)
    with Pair assms show ?thesis by (simp add: in_place_def)
  next
    case (Inr r)
    with Pair assms have "length h \<le> r" by simp
    with Pair Inr assms(1) show ?thesis
      by (cases "f (h' ! r)") (simp_all add: in_place_def)
  qed
qed

lemma feature_steps_keeps:
  assumes "take (length h) (fst s) = h" and "\<forall>r. snd s = Inr r \<longrightarrow> length h \<le> r"
  shows "take (length h) (fst (feature_steps parse lag_hours w e s)) = h"
proof -
  note k = in_place_keeps
  have 1: "take (length h) (fst (in_place add_temporal_features s)) = h
       \<and> (\<forall>r. snd (in_place add_temporal_features s) = Inr r \<longrightarrow> length h \<le> r)"
    using assms by (rule k)
  have 2: "take (length h) (fst (in_place (add_delay_features parse)
                                   (in_place add_temporal_features s))) = h
       \<and> (\<forall>r. snd (in_place (add_delay_features parse)
                       (in_place add_temporal_features s)) = Inr r \<longrightarrow> length h \<le> r)"
    using 1 by (intro k) simp_all
  let ?s3 = "in_place (add_lag_features lag_hours)
               (in_place (add_delay_features parse) (in_place add_temporal_features s))"
  have 3: "take (length h) (fst ?s3) = h \<and> (\<forall>r. snd ?s3 = Inr r \<longrightarrow> length h \<le> r)"
    using 2 by (intro k) simp_all
  let ?s4 = "in_place add_route_features ?s3"
  have 4: "take (length h) (fst ?s4) = h \<and> (\<forall>r. snd ?s4 = Inr r \<longrightarrow> length h \<le> r)"
    using 3 by (intro k) simp_all
  let ?s5 = "if w then in_place add_weather_features ?s4 else ?s4"
  have 5: "take (length h) (fst ?s5) = h \<and> (\<forall>r. snd ?s5 = Inr r \<longrightarrow> length h \<le> r)"
    using 4 k [of h ?s4 add_weather_features] by (cases w) simp_all
  let ?s6 = "if e then in_place add_event_features ?s5 else ?s5"
  have 6: "take (length h) (fst ?s6) = h \<and> (\<forall>r. snd ?s6 = Inr r \<longrightarrow> length h \<le> r)"
    using 5 k [of h ?s5 add_event_features] by (cases e) simp_all
  have "feature_steps parse lag_hours w e s = ?s6"
    by (simp add: feature_steps_def Let_def)
  with 6 show ?thesis by simp
qed

text \<open>
  Claim C9. \<^verbatim>\<open>create_features\<close> works on a copy: whatever the options and whether it
  returns or raises, every frame that existed before the call, the caller's table among
  them, is the same object with the same contents afterwards.
\<close>

theorem create_features_leaves_input:
  assumes "create_features parse lag_hours w e h df (h', res)" and "df < length h"
  shows "take (length h) h' = h \<and> h' ! df = h ! df"
proof -
  have t: "take (length h) h' = h"
    using assms(1)
  proof (cases rule: create_features.cases)
    case (no_timestamp h1 c)
    then have "h1 = h @ [h ! df]" "c = length h" by (simp_all add: copy_def)
    then have "take (length h) (fst (feature_steps parse lag_hours w e (h1, Inr c))) = h"
      by (intro feature_steps_keeps) simp_all
    with no_timestamp(1) show ?thesis by (metis fst_conv)
  next
    case bad_timestamp
    then show ?thesis by (auto simp: copy_def)
  next
    case (sorted_by_timestamp h1 c col ts h2 sorted_df)
    then have "h1 = h @ [h ! df]" "c = length h" by (simp_all add: copy_def)
    with sorted_by_timestamp(5) have "take (length h) (h2 @ [sorted_df]) = h" "length h2 = Suc (length h)"
      by simp_all
    then have "take (length h)
                 (fst (feature_steps parse lag_hours w e (h2 @ [sorted_df], Inr (length h2)))) = h"
      by (intro feature_steps_keeps) simp_all
    with sorted_by_timestamp(1) show ?thesis by (metis fst_conv)
  qed
  from assms(2) have "take (length h) h' ! df = h' ! df" by simp
  with t show ?thesis by simp
qed

theorem create_features_leaves_input_witness:
  "create_features (\<lambda>_. Inr None) default_lag_hours True True
     [\<lparr>index = IntegerIndex [0, 1], columns = [(Delay_seconds, Numeric [Some 60, Some 120])]\<rparr>] 0
     ([\<lparr>index = IntegerIndex [0, 1], columns = [(Delay_seconds, Numeric [Some 60, Some 120])]\<rparr>,
       \<lparr>index = IntegerIndex [0, 1],
        columns = [(Delay_seconds, Numeric [Some 60, Some 120]),
                   (Delay_minutes, Numeric [Some 1, Some 2]),
                   (Temperature, Numeric [None, None]), (Precipitation, Numeric [None, None]),
                   (Is_rainy, Numeric [Some 0, Some 0]), (Is_holiday, Numeric [Some 0, Some 0]),
                   (Nearby_event, Numeric [Some 0, Some 0])]\<rparr>], Inr 1)
   \<and> [\<lparr>index = IntegerIndex [0, 1], columns = [(Delay_seconds, Numeric [Some 60, Some 120])]\<rparr>,
       \<lparr>index = IntegerIndex [0, 1],
        columns = [(Delay_seconds, Numeric [Some 60, Some 120]),
                   (Delay_minutes, Numeric [Some 1, Some 2]),
                   (Temperature, Numeric [None, None]), (Precipitation, Numeric [None, None]),
                   (Is_rainy, Numeric [Some 0, Some 0]), (Is_holiday, Numeric [Some 0, Some 0]),
                   (Nearby_event, Numeric [Some 0, Some 0])]\<rparr>] ! 0
     = \<lparr>index = IntegerIndex [0, 1], columns = [(Delay_seconds, Numeric [Some 60, Some 120])]\<rparr>"
proof -
  let ?df = "\<lparr>index = IntegerIndex [0, 1], columns = [(Delay_seconds, Numeric [Some 60, Some 120])]\<rparr>"
  let ?out = "\<lparr>index = IntegerIndex [0, 1],
        columns = [(Delay_seconds, Numeric [Some 60, Some 120]),
                   (Delay_minutes, Numeric [Some 1, Some 2]),
                   (Temperature, Numeric [None, None]), (Precipitation, Numeric [None, None]),
                   (Is_rainy, Numeric [Some 0, Some 0]), (Is_holiday, Numeric [Some 0, Some 0]),
                   (Nearby_event, Numeric [Some 0, Some 0])]\<rparr>"
  have c: "copy [?df] 0 = ([?df, ?df], 1)"
    by (simp add: copy_def)
  have g: "get_column ([?df, ?df] ! 1) Timestamp = None"
    by (simp add: get_column_def)
  have f: "feature_steps (\<lambda>_. Inr None) default_lag_hours True True ([?df, ?df], Inr 1)
           = ([?df, ?out], Inr 1)"
    by (simp add: feature_steps_def in_place_def add_temporal_features_def add_delay_features_def
        add_lag_features_def add_route_features_def add_weather_features_def
        add_event_features_def get_column_def set_column_def column_names_def nrows_def Let_def)
  have r: "create_features (\<lambda>_. Inr None) default_lag_hours True True [?df] 0 ([?df, ?out], Inr 1)"
    using create_features.no_timestamp [OF c g, of "\<lambda>_. Inr None" default_lag_hours True True]
    by (simp only: f)
  from create_features_leaves_input [OF r] r show ?thesis by simp
qed

lemma update_same: "map_of al k = Some v \<Longrightarrow> AList.update k v al = al"
  by (induction al) (auto split: if_splits)

lemma set_column_same: "get_column df c = Some v \<Longrightarrow> set_column df c v = df"
  by (simp add: get_column_def set_column_def update_same)

lemma get_column_take_rows:
  "get_column (take_rows df p) c = map_option (\<lambda>v. column_take v p) (get_column df c)"
proof -
  have "map_of (map (\<lambda>(c, v). (c, column_take v p)) al) c
        = map_option (\<lambda>v. column_take v p) (map_of al c)" for al
    by (induction al) auto
  then show ?thesis by (simp add: get_column_def take_rows_def)
qed

lemma groups_single_route:
  "groupby_positions [Some ''14'', Some ''14'', Some ''14''] = [[0, 1, 2]]"
  by (simp add: groupby_positions_def upt_rec numeral_3_eq_3)

text \<open>
  Claim C6 at a table of one route with observations at 00:00, 05:00 and 10:00 and delays
  3, 6 and 9: the column \<^verbatim>\<open>delay_rolling_mean_3h\<close> that the engine computes is 3, 4.5
  and 6. The window is the last three rows of the route, so the row at 10:00 averages all
  three observations, while its trailing three hours hold only its own.
\<close>

theorem rolling_window_counts_rows:
  "map_sum id (\<lambda>out. get_column out (Delay_rolling_mean 3))
     (add_lag_features default_lag_hours
        \<lparr>index = DatetimeIndex [0, 5 * ns_per_hour, 10 * ns_per_hour],
         columns = [(Timestamp, Datetime [Some 0, Some (5 * ns_per_hour), Some (10 * ns_per_hour)]),
                    (Route_id, Text [Some ''14'', Some ''14'', Some ''14'']),
                    (Delay_minutes, Numeric [Some 3, Some 6, Some 9])]\<rparr>)
   = Inr (Some (Numeric [Some 3, Some (9 / 2), Some 6]))"
proof -
  let ?df = "\<lparr>index = DatetimeIndex [0, 5 * ns_per_hour, 10 * ns_per_hour],
         columns = [(Timestamp, Datetime [Some 0, Some (5 * ns_per_hour), Some (10 * ns_per_hour)]),
                    (Route_id, Text [Some ''14'', Some ''14'', Some ''14'']),
                    (Delay_minutes, Numeric [Some 3, Some 6, Some 9])]\<rparr>"
  have sh: "shifted (DatetimeIndex [0, 5 * ns_per_hour, 10 * ns_per_hour]) [[0, Suc 0, 2]]
              [Some 3, Some 6, Some (9::real)] k = Inr [None, None, None]"
    if "k \<in> {1, 3, 24, 168}" for k
    using that
    by (auto simp: shifted_def groupby_shift_freq_def reindex_for_setitem_def ns_per_hour_def
        ns_per_second_def)
  have r: "get_column ?df Route_id = Some (Text [Some ''14'', Some ''14'', Some ''14''])"
    and d: "get_column ?df Delay_minutes = Some (Numeric [Some 3, Some 6, Some 9])"
    by (simp_all add: get_column_def)
  have n: "Delay_minutes \<in> set (column_names ?df)" "Route_id \<in> set (column_names ?df)"
    by (simp_all add: column_names_def)
  have lag: "lag_loop default_lag_hours ?df =
     Inr (set_column (set_column (set_column (set_column ?df (Delay_lag 1) (Numeric [None, None, None]))
        (Delay_lag 3) (Numeric [None, None, None])) (Delay_lag 24) (Numeric [None, None, None]))
        (Delay_lag 168) (Numeric [None, None, None]))"
    by (simp add: default_lag_hours_def get_set_column index_set_column sh r d
        groups_single_route)
  have w: "map mean (rolling 3 [Some 3, Some 6, Some 9]) = [Some 3, Some (9 / 2), Some 6]"
    by (simp add: rolling_def mean_def observations_def upt_rec numeral_3_eq_3)
  have t: "transform [[0, Suc 0, 2]] (\<lambda>x. map mean (rolling 3 x)) [Some 3, Some 6, Some 9]
           = [Some 3, Some (9 / 2), Some 6]"
    unfolding transform_def take_positions_def Let_def
    by (simp add: w upt_rec)
  show ?thesis
    unfolding add_lag_features_def
    by (simp add: lag n get_set_column r d t Let_def groups_single_route)
qed

theorem rolling_window_counts_rows_witness:
  "Delay_minutes \<in> set (column_names
        \<lparr>index = DatetimeIndex [0, 5 * ns_per_hour, 10 * ns_per_hour],
         columns = [(Timestamp, Datetime [Some 0, Some (5 * ns_per_hour), Some (10 * ns_per_hour)]),
                    (Route_id, Text [Some ''14'', Some ''14'', Some ''14'']),
                    (Delay_minutes, Numeric [Some 3, Some 6, Some 9])]\<rparr>)
   \<and> Route_id \<in> set (column_names
        \<lparr>index = DatetimeIndex [0, 5 * ns_per_hour, 10 * ns_per_hour],
         columns = [(Timestamp, Datetime [Some 0, Some (5 * ns_per_hour), Some (10 * ns_per_hour)]),
                    (Route_id, Text [Some ''14'', Some ''14'', Some ''14'']),
                    (Delay_minutes, Numeric [Some 3, Some 6, Some 9])]\<rparr>)
   \<and> (\<exists>out. add_lag_features default_lag_hours
        \<lparr>index = DatetimeIndex [0, 5 * ns_per_hour, 10 * ns_per_hour],
         columns = [(Timestamp, Datetime [Some 0, Some (5 * ns_per_hour), Some (10 * ns_per_hour)]),
                    (Route_id, Text [Some ''14'', Some ''14'', Some ''14'']),
                    (Delay_minutes, Numeric [Some 3, Some 6, Some 9])]\<rparr> = Inr out
        \<and> get_column out (Delay_rolling_mean 3) = Some (Numeric [Some 3, Some (9 / 2), Some 6]))"
proof -
  let ?df = "\<lparr>index = DatetimeIndex [0, 5 * ns_per_hour, 10 * ns_per_hour],
         columns = [(Timestamp, Datetime [Some 0, Some (5 * ns_per_hour), Some (10 * ns_per_hour)]),
                    (Route_id, Text [Some ''14'', Some ''14'', Some ''14'']),
                    (Delay_minutes, Numeric [Some 3, Some 6, Some 9])]\<rparr>"
  have n: "Delay_minutes \<in> set (column_names ?df)" "Route_id \<in> set (column_names ?df)"
    by (simp_all add: column_names_def)
  have "\<exists>out. add_lag_features default_lag_hours ?df = Inr out
        \<and> get_column out (Delay_rolling_mean 3) = Some (Numeric [Some 3, Some (9 / 2), Some 6])"
    using rolling_window_counts_rows
    by (cases "add_lag_features default_lag_hours ?df") simp_all
  with n show ?thesis by (intro conjI)
qed

subsection \<open>Lag features\<close>

lemma in_groupby_positions:
  "(\<exists>g \<in> set (groupby_positions ks). i \<in> set g) \<longleftrightarrow> i < length ks \<and> ks ! i \<noteq> None"
proof -
  have k: "set (concat (map (\<lambda>x. case x of None \<Rightarrow> [] | Some k \<Rightarrow> [k]) ks)) = {k. Some k \<in> set ks}"
    by (induction ks) (auto split: option.splits)
  show ?thesis
    by (auto simp: groupby_positions_def k) (metis, metis nth_mem)
qed

lemma in_groups:
  "(\<exists>g \<in> set (groups c). i \<in> set g) \<longleftrightarrow> i < length (cells c) \<and> cells c ! i \<noteq> None"
  by (cases c) (auto simp: in_groupby_positions)

lemma shift_series_set:
  assumes "groupby_shift_freq (DatetimeIndex ls) gs values hours = Inr s"
  shows "set s = {(ls ! j + hours * ns_per_hour, values ! j) | j. \<exists>g \<in> set gs. j \<in> set g}"
  using assms by (auto simp: groupby_shift_freq_def split: if_splits) blast+

lemma lookup_own_labels:
  "distinct (map fst s) \<Longrightarrow>
   map (\<lambda>l. case map_of s l of None \<Rightarrow> None | Some v \<Rightarrow> v) (map fst s) = map snd s"
proof (induction s)
  case Nil
  then show ?case by simp
next
  case (Cons kv s)
  have "map (\<lambda>l. case map_of (kv # s) l of None \<Rightarrow> None | Some v \<Rightarrow> v) (map fst s)
        = map (\<lambda>l. case map_of s l of None \<Rightarrow> None | Some v \<Rightarrow> v) (map fst s)"
    using Cons.prems by (intro map_cong) (auto simp: image_iff)
  with Cons show ?case by (cases kv) simp
qed

lemma reindex_distinct_lookup:
  assumes "reindex_for_setitem idx s = Inr lag" and "distinct (labels idx)"
  shows "distinct (map fst s)"
    and "lag = map (\<lambda>l. case map_of s l of None \<Rightarrow> None | Some v \<Rightarrow> v) (labels idx)"
proof -
  show d: "distinct (map fst s)"
    using assms by (auto simp: reindex_for_setitem_def split: if_splits)
  show "lag = map (\<lambda>l. case map_of s l of None \<Rightarrow> None | Some v \<Rightarrow> v) (labels idx)"
  proof (cases "map fst s = labels idx")
    case True
    with assms(1) have "lag = map snd s" by (simp add: reindex_for_setitem_def)
    with True lookup_own_labels [OF d] show ?thesis by simp
  next
    case False
    with assms(1) show ?thesis by (auto simp: reindex_for_setitem_def split: if_splits)
  qed
qed

lemma shifted_lookup:
  assumes "shifted (DatetimeIndex ls) gs values hours = Inr lag" and "distinct ls"
    and "i < length ls"
  shows "length lag = length ls"
    and "\<And>j. \<exists>g \<in> set gs. j \<in> set g \<Longrightarrow> ls ! j + hours * ns_per_hour = ls ! i \<Longrightarrow>
           lag ! i = values ! j"
    and "(\<And>j. \<exists>g \<in> set gs. j \<in> set g \<Longrightarrow> ls ! j + hours * ns_per_hour \<noteq> ls ! i) \<Longrightarrow>
           lag ! i = None"
proof -
  from assms(1) obtain s where s: "groupby_shift_freq (DatetimeIndex ls) gs values hours = Inr s"
    and r: "reindex_for_setitem (DatetimeIndex ls) s = Inr lag"
    by (auto simp: shifted_def split: sum.splits)
  from reindex_distinct_lookup [OF r] assms(2)
  have d: "distinct (map fst s)"
    and l: "lag = map (\<lambda>l. case map_of s l of None \<Rightarrow> None | Some v \<Rightarrow> v) ls"
    by simp_all
  note m = shift_series_set [OF s]
  from l show "length lag = length ls" by simp
  from l assms(3) have li: "lag ! i = (case map_of s (ls ! i) of None \<Rightarrow> None | Some v \<Rightarrow> v)"
    by simp
  show "lag ! i = values ! j"
    if "\<exists>g \<in> set gs. j \<in> set g" and "ls ! j + hours * ns_per_hour = ls ! i" for j
  proof -
    from that(1) have "(ls ! j + hours * ns_per_hour, values ! j) \<in> set s"
      unfolding m by blast
    with that(2) have "(ls ! i, values ! j) \<in> set s" by simp
    with d have "map_of s (ls ! i) = Some (values ! j)" by (rule map_of_is_SomeI)
    with li show ?thesis by simp
  qed
  show "lag ! i = None"
    if "\<And>j. \<exists>g \<in> set gs. j \<in> set g \<Longrightarrow> ls ! j + hours * ns_per_hour \<noteq> ls ! i"
  proof -
    from that m have "ls ! i \<notin> fst ` set s" by force
    then have "map_of s (ls ! i) = None" by (simp add: map_of_eq_None_iff)
    with li show ?thesis by simp
  qed
qed

lemma lag_loop_columns:
  assumes "lag_loop L df = Inr out" and "get_column df Route_id = Some route"
    and "get_column df Delay_minutes = Some delay"
  shows "(\<forall>c. c \<notin> Delay_lag ` set L \<longrightarrow> get_column out c = get_column df c)
       \<and> (\<forall>H \<in> set L. \<exists>lag. shifted_column (index df) (groups route) delay H = Inr lag
                              \<and> get_column out (Delay_lag H) = Some lag)"
  using assms
proof (induction L arbitrary: df)
  case Nil
  then show ?case by simp
next
  case (Cons h L)
  from Cons.prems obtain lag where
    l: "shifted_column (index df) (groups route) delay h = Inr lag"
    and rest: "lag_loop L (set_column df (Delay_lag h) lag) = Inr out"
    by (auto split: sum.splits)
  let ?df = "set_column df (Delay_lag h) lag"
  have g: "get_column ?df Route_id = Some route" "get_column ?df Delay_minutes = Some delay"
    using Cons.prems by (simp_all add: get_set_column)
  have i: "index ?df = index df" by (simp add: index_set_column)
  note IH = Cons.IH [OF rest g]
  have 1: "get_column out c = get_column df c" if "c \<notin> Delay_lag ` set (h # L)" for c
    using that IH by (simp add: get_set_column)
  have 2: "\<exists>lag. shifted_column (index df) (groups route) delay H = Inr lag
                \<and> get_column out (Delay_lag H) = Some lag" if "H \<in> set (h # L)" for H
  proof (cases "H \<in> set L")
    case True
    with IH i show ?thesis by simp
  next
    case False
    with that have "H = h" by simp
    with False have "Delay_lag h \<notin> Delay_lag ` set L" by auto
    with IH have "get_column out (Delay_lag h) = get_column ?df (Delay_lag h)" by blast
    with l \<open>H = h\<close> show ?thesis by (simp add: get_set_column)
  qed
  from 1 2 show ?case by blast
qed

lemma rolling_loop_columns:
  assumes "rolling_loop W df = Inr out"
    and "\<forall>k. c \<noteq> Delay_rolling_mean k \<and> c \<noteq> Delay_rolling_std k"
  shows "get_column out c = get_column df c"
  using assms
proof (induction W arbitrary: df)
  case Nil
  then show ?case by simp
next
  case (Cons w W)
  from Cons.prems(1) obtain X Y where
    "rolling_loop W (set_column (set_column df (Delay_rolling_mean (int w)) X)
                       (Delay_rolling_std (int w)) Y) = Inr out"
    by (auto simp: Let_def split: option.splits column.splits if_splits)
  from Cons.IH [OF this Cons.prems(2)] Cons.prems(2) show ?case
    by (simp add: get_set_column)
qed

lemma rolling_loop_numeric:
  assumes "get_column df Route_id = Some route" and "get_column df Delay_minutes = Some (Numeric x)"
  shows "\<exists>out. rolling_loop W df = Inr out"
  using assms
  by (induction W arbitrary: df) (simp_all add: Let_def get_set_column)

lemma lag_features_integer_index:
  assumes "index df = IntegerIndex ls" and "get_column df Route_id = Some route"
    and "get_column df Delay_minutes = Some delay" and "groups route \<noteq> []"
  shows "add_lag_features (h # rest) df = Inl (PyError ''NotImplementedError'' [])"
proof -
  have "shifted_column (IntegerIndex ls) (groups route) delay h
        = Inl (PyError ''NotImplementedError'' [])"
    using assms(4) by (cases delay) (simp_all add: shifted_def groupby_shift_freq_def)
  with assms show ?thesis
    by (simp add: add_lag_features_def get_column_in_names)
qed

text \<open>
  Claim C1, as amended. In a table indexed by pairwise distinct instants, for every
  configured horizon \<open>H\<close> the column \<^verbatim>\<open>delay_lag_{H}h\<close> holds, at the row labelled
  \<open>T\<close>, the delay of the row of the same route that is labelled exactly \<open>T\<close> less
  \<open>H\<close> hours when there is one, and a missing value when no row at all carries that
  label. An earlier observation of the route that is not exactly \<open>H\<close> hours back is
  not used.
\<close>

theorem lag_feature_exact_offset:
  assumes "add_lag_features lag_hours df = Inr out" and "H \<in> set lag_hours"
    and "index df = DatetimeIndex ls" and "distinct ls"
    and "get_column df Route_id = Some route" and "length (cells route) = length ls"
    and "get_column df Delay_minutes = Some (Numeric delay)"
    and "i < length ls"
  shows "\<exists>lag. get_column out (Delay_lag H) = Some (Numeric lag) \<and> length lag = length ls
      \<and> (\<forall>j < length ls. cells route ! j \<noteq> None \<and> cells route ! j = cells route ! i
              \<and> ls ! j = ls ! i - H * ns_per_hour \<longrightarrow> lag ! i = delay ! j)
      \<and> ((\<forall>j < length ls. ls ! j \<noteq> ls ! i - H * ns_per_hour) \<longrightarrow> lag ! i = None)"
proof -
  from assms(5,7) have n: "Delay_minutes \<in> set (column_names df)" "Route_id \<in> set (column_names df)"
    by (simp_all add: get_column_in_names)
  with assms(1) obtain mid where
    m: "lag_loop lag_hours df = Inr mid" and r: "rolling_loop [3, 6, 12] mid = Inr out"
    by (auto simp: add_lag_features_def split: sum.splits)
  from lag_loop_columns [OF m assms(5,7)] assms(2,3) obtain col where
    c: "shifted_column (DatetimeIndex ls) (groups route) (Numeric delay) H = Inr col"
    and g: "get_column mid (Delay_lag H) = Some col"
    by auto
  from c obtain lag where col: "col = Numeric lag"
    and s: "shifted (DatetimeIndex ls) (groups route) delay H = Inr lag"
    by (cases "shifted (DatetimeIndex ls) (groups route) delay H") auto
  from rolling_loop_columns [OF r, of "Delay_lag H"] g col
  have o: "get_column out (Delay_lag H) = Some (Numeric lag)" by simp
  note sl = shifted_lookup [OF s assms(4,8)]
  have a: "lag ! i = delay ! j"
    if "j < length ls" "cells route ! j \<noteq> None" "ls ! j = ls ! i - H * ns_per_hour" for j
  proof -
    from that assms(6) have "\<exists>g \<in> set (groups route). j \<in> set g" by (simp add: in_groups)
    moreover from that have "ls ! j + H * ns_per_hour = ls ! i" by simp
    ultimately show ?thesis by (rule sl(2))
  qed
  have b: "lag ! i = None" if none: "\<forall>j < length ls. ls ! j \<noteq> ls ! i - H * ns_per_hour"
  proof (rule sl(3))
    fix j assume "\<exists>g \<in> set (groups route). j \<in> set g"
    with assms(6) have "j < length ls" by (simp add: in_groups)
    with none have "ls ! j \<noteq> ls ! i - H * ns_per_hour" by simp
    then show "ls ! j + H * ns_per_hour \<noteq> ls ! i" by auto
  qed
  from o sl(1) a b show ?thesis by blast
qed

subsection \<open>Runs of the engine\<close>



lemma nargsort_permutation:
  assumes "nargsort ks p"
  shows "distinct p" and "set p = {0..<length ks}"
    and "sorted_wrt na_last_le (map (\<lambda>i. ks ! i) p)"
    and "drop (length (non_nan_idx ks)) p = nan_idx ks"
proof -
  let ?m = "length (non_nan_idx ks)"
  from assms have q: "distinct (take ?m p)" "set (take ?m p) = set (non_nan_idx ks)"
      "sorted_wrt na_last_le (map (\<lambda>i. ks ! i) (take ?m p))"
    and r: "drop ?m p = nan_idx ks"
    by (simp_all add: nargsort_def Let_def)
  have p: "p = take ?m p @ nan_idx ks"
    using r append_take_drop_id [of ?m p] by simp
  have d: "distinct (nan_idx ks)" by (simp add: nan_idx_def)
  have i: "set (take ?m p) \<inter> set (nan_idx ks) = {}"
    unfolding q(2) by (auto simp: nan_idx_def non_nan_idx_def)
  have "distinct (take ?m p @ nan_idx ks)" using q(1) d i by simp
  with p show "distinct p" by simp
  have "set (take ?m p @ nan_idx ks) = {0..<length ks}"
    unfolding set_append q(2) by (auto simp: nan_idx_def non_nan_idx_def)
  with p show "set p = {0..<length ks}" by simp
  have n: "\<forall>y \<in> set (nan_idx ks). ks ! y = None" by (simp add: nan_idx_def)
  then have "sorted_wrt na_last_le (map (\<lambda>i. ks ! i) (nan_idx ks))"
    by (induction "nan_idx ks") (simp_all add: sorted_wrt_map sorted_wrt_iff_nth_less)
  with q(3) n have "sorted_wrt na_last_le (map (\<lambda>i. ks ! i) (take ?m p @ nan_idx ks))"
    by (simp add: sorted_wrt_append)
  with p show "sorted_wrt na_last_le (map (\<lambda>i. ks ! i) p)" by simp
  from r show "drop ?m p = nan_idx ks" .
qed

lemma create_features_run:
  assumes "create_features parse lag_hours w e h df out" and "df < length h"
  shows "(get_column (h ! df) Timestamp = None
          \<and> out = feature_steps parse lag_hours w e (h @ [h ! df], Inr (length h)))
       \<or> (\<exists>col err. get_column (h ! df) Timestamp = Some col \<and> to_datetime parse col = Inl err
             \<and> out = (h @ [h ! df], Inl err))
       \<or> (\<exists>col ts p. get_column (h ! df) Timestamp = Some col \<and> to_datetime parse col = Inr ts
             \<and> distinct p \<and> set p = {0..<length ts}
             \<and> sorted_wrt na_last_le (take_positions ts p)
             \<and> drop (length (non_nan_idx ts)) p = nan_idx ts
             \<and> out = feature_steps parse lag_hours w e
                        (h @ [set_column (h ! df) Timestamp (Datetime ts),
                              take_rows (set_column (h ! df) Timestamp (Datetime ts)) p],
                         Inr (Suc (length h))))"
  using assms(1)
proof (cases rule: create_features.cases)
  case no_timestamp
  with assms(2) show ?thesis by (auto simp: copy_def nth_append)
next
  case bad_timestamp
  with assms(2) show ?thesis by (auto simp: copy_def nth_append)
next
  case (sorted_by_timestamp h1 c col ts h2 sorted_df)
  from sorted_by_timestamp(2) have h1: "h1 = h @ [h ! df]" and c: "c = length h"
    by (simp_all add: copy_def)
  let ?d = "set_column (h ! df) Timestamp (Datetime ts)"
  from sorted_by_timestamp(5) h1 c have h2: "h2 = h @ [?d]" by simp
  from sorted_by_timestamp(3) h1 c have col: "get_column (h ! df) Timestamp = Some col" by simp
  from sorted_by_timestamp(6) h2 c have "sort_values ?d Timestamp sorted_df" by simp
  then obtain p where p: "nargsort ts p" "sorted_df = take_rows ?d p"
    by (auto elim!: sort_values.cases simp: get_set_column)
  note n = nargsort_permutation [OF p(1)]
  have "out = feature_steps parse lag_hours w e (h @ [?d, take_rows ?d p], Inr (Suc (length h)))"
    using sorted_by_timestamp(1) h2 p(2) by simp
  with col sorted_by_timestamp(4) n show ?thesis by (auto simp: take_positions_def)
qed










lemma groups_two_routes:
  "groupby_positions [Some (22::real), Some 14] = [[1], [0]]"
  by (simp add: groupby_positions_def upt_rec numeral_2_eq_2)

lemma lag_from_other_route:
  "map_sum id (\<lambda>out. get_column out (Delay_lag 1))
     (add_lag_features [1]
        \<lparr>index = DatetimeIndex [9 * ns_per_hour, 10 * ns_per_hour],
         columns = [(Route_id, Numeric [Some 22, Some 14]),
                    (Delay_minutes, Numeric [Some 4, Some 9])]\<rparr>)
   = Inr (Some (Numeric [None, Some 4]))"
proof -
  let ?df = "\<lparr>index = DatetimeIndex [9 * ns_per_hour, 10 * ns_per_hour],
         columns = [(Route_id, Numeric [Some 22, Some 14]),
                    (Delay_minutes, Numeric [Some 4, Some 9])]\<rparr>"
  have r: "get_column ?df Route_id = Some (Numeric [Some 22, Some 14])"
    and d: "get_column ?df Delay_minutes = Some (Numeric [Some 4, Some 9])"
    by (simp_all add: get_column_def)
  have n: "Delay_minutes \<in> set (column_names ?df)" "Route_id \<in> set (column_names ?df)"
    by (simp_all add: column_names_def)
  have sh: "shifted (DatetimeIndex [9 * ns_per_hour, 10 * ns_per_hour]) [[Suc 0], [0]]
              [Some 4, Some (9::real)] 1 = Inr [None, Some 4]"
    by (simp add: shifted_def groupby_shift_freq_def reindex_for_setitem_def ns_per_hour_def
        ns_per_second_def)
  have lag: "lag_loop [1] ?df = Inr (set_column ?df (Delay_lag 1) (Numeric [None, Some 4]))"
    by (simp add: r d sh groups_two_routes)
  show ?thesis
    unfolding add_lag_features_def
    by (simp add: lag n get_set_column r d Let_def del: lag_loop.simps)
qed

lemma lag_features_duplicate_labels:
  "add_lag_features [1]
        \<lparr>index = DatetimeIndex [8 * ns_per_hour, 8 * ns_per_hour],
         columns = [(Route_id, Numeric [Some 22, Some 14]),
                    (Delay_minutes, Numeric [Some 4, Some 9])]\<rparr>
   = Inl (PyError ''ValueError'' ''cannot reindex on an axis with duplicate labels'')"
proof -
  let ?df = "\<lparr>index = DatetimeIndex [8 * ns_per_hour, 8 * ns_per_hour],
         columns = [(Route_id, Numeric [Some 22, Some 14]),
                    (Delay_minutes, Numeric [Some 4, Some 9])]\<rparr>"
  have r: "get_column ?df Route_id = Some (Numeric [Some 22, Some 14])"
    and d: "get_column ?df Delay_minutes = Some (Numeric [Some 4, Some 9])"
    by (simp_all add: get_column_def)
  have n: "Delay_minutes \<in> set (column_names ?df)" "Route_id \<in> set (column_names ?df)"
    by (simp_all add: column_names_def)
  have sh: "shifted (DatetimeIndex [8 * ns_per_hour, 8 * ns_per_hour]) [[Suc 0], [0]]
              [Some 4, Some (9::real)] 1
            = Inl (PyError ''ValueError'' ''cannot reindex on an axis with duplicate labels'')"
    by (simp add: shifted_def groupby_shift_freq_def reindex_for_setitem_def ns_per_hour_def
        ns_per_second_def)
  have lag: "lag_loop [1] ?df
             = Inl (PyError ''ValueError'' ''cannot reindex on an axis with duplicate labels'')"
    by (simp add: r d sh groups_two_routes)
  show ?thesis
    unfolding add_lag_features_def by (simp add: lag n del: lag_loop.simps)
qed

theorem lag_feature_exact_offset_witness:
  "\<exists>out lag. add_lag_features [1]
        \<lparr>index = DatetimeIndex [8 * ns_per_hour, 9 * ns_per_hour, 10 * ns_per_hour],
         columns = [(Route_id, Text [Some ''14'', Some ''14'', Some ''14'']),
                    (Delay_minutes, Numeric [Some 2, Some 5, Some 7])]\<rparr> = Inr out
     \<and> get_column out (Delay_lag 1) = Some (Numeric lag)
     \<and> lag ! 0 = None \<and> lag ! 1 = Some 2"
proof -
  let ?ls = "[8 * ns_per_hour, 9 * ns_per_hour, 10 * ns_per_hour]"
  let ?df = "\<lparr>index = DatetimeIndex ?ls,
         columns = [(Route_id, Text [Some ''14'', Some ''14'', Some ''14'']),
                    (Delay_minutes, Numeric [Some 2, Some 5, Some 7])]\<rparr>"
  have r: "get_column ?df Route_id = Some (Text [Some ''14'', Some ''14'', Some ''14''])"
    and d: "get_column ?df Delay_minutes = Some (Numeric [Some 2, Some 5, Some 7])"
    by (simp_all add: get_column_def)
  have n: "Delay_minutes \<in> set (column_names ?df)" "Route_id \<in> set (column_names ?df)"
    by (simp_all add: column_names_def)
  have sh: "shifted (DatetimeIndex ?ls) [[0, Suc 0, 2]] [Some 2, Some 5, Some (7::real)] 1
            = Inr [None, Some 2, Some 5]"
    by (simp add: shifted_def groupby_shift_freq_def reindex_for_setitem_def ns_per_hour_def
        ns_per_second_def)
  let ?mid = "set_column ?df (Delay_lag 1) (Numeric [None, Some 2, Some 5])"
  have lag: "lag_loop [1] ?df = Inr ?mid"
    by (simp add: r d sh groups_single_route)
  have "\<exists>out. rolling_loop [3, 6, 12] ?mid = Inr out"
    by (rule rolling_loop_numeric [where route = "Text [Some ''14'', Some ''14'', Some ''14'']"
          and x = "[Some 2, Some 5, Some 7]"])
       (simp_all add: get_set_column r d)
  then obtain out where out: "add_lag_features [1] ?df = Inr out"
    by (auto simp: add_lag_features_def lag n simp del: lag_loop.simps)
  have ix: "index ?df = DatetimeIndex ?ls" by simp
  have ds: "distinct ?ls" by (simp add: ns_per_hour_def ns_per_second_def)
  have len: "length (cells (Text [Some ''14'', Some ''14'', Some ''14''])) = length ?ls" by simp
  note t = lag_feature_exact_offset [OF out _ ix ds r len d, of 1]
  from t [of 0] obtain lag0 where
    a: "get_column out (Delay_lag 1) = Some (Numeric lag0)" and a0: "lag0 ! 0 = None"
    by (auto simp: ns_per_hour_def ns_per_second_def less_Suc_eq numeral_3_eq_3)
  from t [of 1] obtain lag1 where
    b: "get_column out (Delay_lag 1) = Some (Numeric lag1)" and b1: "lag1 ! 1 = Some 2"
    by (auto simp: ns_per_hour_def ns_per_second_def)
  from a b have "lag1 = lag0" by simp
  with out a a0 b1 show ?thesis by blast
qed

text \<open>
  The example of the specification: route 14 observed at 08:00 (delay 2) and 10:30
  (delay 5), and a row at 11:31. The most recent observation at or before 10:31 is the
  one of 10:30, so the lag feature of the specification is 5; the engine's column holds
  a missing value there, since no row is labelled 10:31.
\<close>

theorem lag_not_most_recent_counterexample:
  "map_sum id (\<lambda>out. get_column out (Delay_lag 1))
     (add_lag_features [1]
        \<lparr>index = DatetimeIndex [28800 * ns_per_second, 37800 * ns_per_second,
                                 41460 * ns_per_second],
         columns = [(Timestamp, Datetime [Some (28800 * ns_per_second),
                                          Some (37800 * ns_per_second),
                                          Some (41460 * ns_per_second)]),
                    (Route_id, Text [Some ''14'', Some ''14'', Some ''14'']),
                    (Delay_minutes, Numeric [Some 2, Some 5, Some 7])]\<rparr>)
   = Inr (Some (Numeric [None, None, None]))
   \<and> spec_lag [28800 * ns_per_second, 37800 * ns_per_second, 41460 * ns_per_second]
        [Some ''14'', Some ''14'', Some ''14''] [Some 2, Some 5, Some 7] 1 2 = Some 5"
proof -
  let ?ls = "[28800 * ns_per_second, 37800 * ns_per_second, 41460 * ns_per_second]"
  let ?df = "\<lparr>index = DatetimeIndex ?ls,
         columns = [(Timestamp, Datetime [Some (28800 * ns_per_second),
                                          Some (37800 * ns_per_second),
                                          Some (41460 * ns_per_second)]),
                    (Route_id, Text [Some ''14'', Some ''14'', Some ''14'']),
                    (Delay_minutes, Numeric [Some 2, Some 5, Some 7])]\<rparr>"
  have r: "get_column ?df Route_id = Some (Text [Some ''14'', Some ''14'', Some ''14''])"
    and d: "get_column ?df Delay_minutes = Some (Numeric [Some 2, Some 5, Some 7])"
    by (simp_all add: get_column_def)
  have n: "Delay_minutes \<in> set (column_names ?df)" "Route_id \<in> set (column_names ?df)"
    by (simp_all add: column_names_def)
  have sh: "shifted (DatetimeIndex ?ls) [[0, Suc 0, 2]] [Some 2, Some 5, Some (7::real)] 1
            = Inr [None, None, None]"
    by (simp add: shifted_def groupby_shift_freq_def reindex_for_setitem_def ns_per_hour_def
        ns_per_second_def)
  have lag: "lag_loop [1] ?df = Inr (set_column ?df (Delay_lag 1) (Numeric [None, None, None]))"
    by (simp add: r d sh groups_single_route)
  have code: "map_sum id (\<lambda>out. get_column out (Delay_lag 1)) (add_lag_features [1] ?df)
              = Inr (Some (Numeric [None, None, None]))"
    unfolding add_lag_features_def
    by (simp add: lag n get_set_column r d Let_def del: lag_loop.simps)
  have spec: "spec_lag ?ls [Some ''14'', Some ''14'', Some ''14''] [Some 2, Some 5, Some 7] 1 2
              = Some 5"
    by (simp add: spec_lag_def upt_rec numeral_3_eq_3 ns_per_hour_def ns_per_second_def)
  from code spec show ?thesis by (intro conjI)
qed

subsection \<open>The sort by timestamp\<close>

text \<open>
  Claim C8, as amended. For a table with a timestamp column, whatever its values are
  stored as, every run of \<^verbatim>\<open>create_features\<close> first reads the column of the copy as
  instants and stops with the error of \<^verbatim>\<open>pd.to_datetime\<close> if a value cannot be read;
  otherwise it arranges the rows in ascending order of the timestamp, the rows without an
  instant last in their original order. The arranged frame is a permutation of the rows,
  and it is the frame that all the feature steps work on. Which of several rows with the
  same timestamp comes first is not stated here: it is not the original order in general.
\<close>

theorem create_features_sorts_by_timestamp:
  assumes "create_features parse lag_hours w e h df out" and "df < length h"
    and "get_column (h ! df) Timestamp = Some col"
  shows "(\<exists>err. to_datetime parse col = Inl err \<and> out = (h @ [h ! df], Inl err))
       \<or> (\<exists>ts p. to_datetime parse col = Inr ts
             \<and> distinct p \<and> set p = {0..<length ts}
             \<and> sorted_wrt na_last_le (take_positions ts p)
             \<and> drop (length (non_nan_idx ts)) p = nan_idx ts
             \<and> get_column (take_rows (set_column (h ! df) Timestamp (Datetime ts)) p) Timestamp
                 = Some (Datetime (take_positions ts p))
             \<and> out = feature_steps parse lag_hours w e
                        (h @ [set_column (h ! df) Timestamp (Datetime ts),
                              take_rows (set_column (h ! df) Timestamp (Datetime ts)) p],
                         Inr (Suc (length h))))"
proof -
  have g: "get_column (take_rows (set_column (h ! df) Timestamp (Datetime ts)) p) Timestamp
           = Some (Datetime (take_positions ts p))" for ts p
    by (simp add: get_column_take_rows get_set_column)
  from create_features_run [OF assms(1,2)] assms(3) show ?thesis
    by (auto simp: g)
qed

theorem create_features_sorts_by_timestamp_witness:
  "create_features parse_example [] False False
     [\<lparr>index = IntegerIndex [0, 1],
       columns = [(Timestamp, Text [Some ''2024-01-01T08:05:00'', Some ''2024-01-01T08:00:00''])]\<rparr>] 0
     (feature_steps parse_example [] False False
        ([\<lparr>index = IntegerIndex [0, 1],
           columns = [(Timestamp, Text [Some ''2024-01-01T08:05:00'', Some ''2024-01-01T08:00:00''])]\<rparr>,
          \<lparr>index = IntegerIndex [0, 1],
           columns = [(Timestamp, Datetime [Some (1704096300 * ns_per_second),
                                            Some (1704096000 * ns_per_second)])]\<rparr>,
          \<lparr>index = IntegerIndex [1, 0],
           columns = [(Timestamp, Datetime [Some (1704096000 * ns_per_second),
                                            Some (1704096300 * ns_per_second)])]\<rparr>], Inr 2))
   \<and> (\<exists>p. distinct p \<and> set p = {0..<2}
          \<and> sorted_wrt na_last_le
                (take_positions [Some (1704096300 * ns_per_second),
                                 Some (1704096000 * ns_per_second)] p))"
proof -
  let ?df = "\<lparr>index = IntegerIndex [0, 1],
       columns = [(Timestamp, Text [Some ''2024-01-01T08:05:00'', Some ''2024-01-01T08:00:00''])]\<rparr>"
  let ?ts = "[Some (1704096300 * ns_per_second), Some (1704096000 * ns_per_second)]"
  let ?dt = "\<lparr>index = IntegerIndex [0, 1], columns = [(Timestamp, Datetime ?ts)]\<rparr>"
  let ?sorted = "\<lparr>index = IntegerIndex [1, 0],
           columns = [(Timestamp, Datetime [Some (1704096000 * ns_per_second),
                                            Some (1704096300 * ns_per_second)])]\<rparr>"
  let ?col = "Text [Some ''2024-01-01T08:05:00'', Some ''2024-01-01T08:00:00'']"
  have c: "copy [?df] 0 = ([?df, ?df], 1)"
    by (simp add: copy_def)
  have g: "get_column ([?df, ?df] ! 1) Timestamp = Some ?col"
    by (simp add: get_column_def)
  have d: "to_datetime parse_example ?col = Inr ?ts"
    by (simp add: to_datetime_def parse_example_def)
  have u: "[?df, ?dt] = [?df, ?df][1 := set_column ([?df, ?df] ! 1) Timestamp (Datetime ?ts)]"
    by (simp add: set_column_def)
  have "sort_values ?dt Timestamp (take_rows ?dt [1, 0])"
    by (rule sort_values.intros [where c = "Datetime ?ts"])
       (auto simp: get_column_def nargsort_def non_nan_idx_def nan_idx_def
          ns_per_second_def upt_rec numeral_2_eq_2)
  then have s: "sort_values ([?df, ?dt] ! 1) Timestamp ?sorted"
    by (simp add: take_rows_def take_positions_def)
  have r: "create_features parse_example [] False False [?df] 0
             (feature_steps parse_example [] False False ([?df, ?dt, ?sorted], Inr 2))"
    using create_features.sorted_by_timestamp [OF c g d u s, of "[]" False False]
    by (simp add: numeral_2_eq_2)
  have g0: "get_column ([?df] ! 0) Timestamp = Some ?col"
    by (simp add: get_column_def)
  from create_features_sorts_by_timestamp [OF r _ g0] d r show ?thesis
    by auto
qed

text \<open>
  The sort is not a stable one. For eighteen rows with the same timestamp, labelled 0 to
  17, numpy's quicksort partitions once around the median of the first, middle and last
  key, and the two scans of the partition exchange the rows 1 to 7 with the rows 15 to 9;
  the two parts are short and sorted by insertion, which moves no equal keys. The feature
  steps of that run receive the rows in the order 0, 15, 14, ..., 1, 16, 17, where a
  stable sort leaves them as they were.
\<close>

theorem sort_not_stable_counterexample:
  "nargsort_quicksort (replicate 18 (Some (0::int)))
     = Some [0, 15, 14, 13, 12, 11, 10, 9, 8, 7, 6, 5, 4, 3, 2, 1, 16, 17]
   \<and> create_features (\<lambda>_. Inr None) [] False False
     [\<lparr>index = IntegerIndex [0, 1, 2, 3, 4, 5, 6, 7, 8, 9, 10, 11, 12, 13, 14, 15, 16, 17],
       columns = [(Timestamp, Datetime (replicate 18 (Some 0)))]\<rparr>] 0
     (feature_steps (\<lambda>_. Inr None) [] False False
        ([\<lparr>index = IntegerIndex [0, 1, 2, 3, 4, 5, 6, 7, 8, 9, 10, 11, 12, 13, 14, 15, 16, 17],
           columns = [(Timestamp, Datetime (replicate 18 (Some 0)))]\<rparr>,
          \<lparr>index = IntegerIndex [0, 1, 2, 3, 4, 5, 6, 7, 8, 9, 10, 11, 12, 13, 14, 15, 16, 17],
           columns = [(Timestamp, Datetime (replicate 18 (Some 0)))]\<rparr>,
          \<lparr>index = IntegerIndex [0, 15, 14, 13, 12, 11, 10, 9, 8, 7, 6, 5, 4, 3, 2, 1, 16, 17],
           columns = [(Timestamp, Datetime (replicate 18 (Some 0)))]\<rparr>], Inr 2))"
proof -
  let ?ks = "replicate 18 (Some (0::int))"
  let ?p = "[0, 15, 14, 13, 12, 11, 10, 9, 8, 7, 6, 5, 4, 3, 2, 1, 16, 17] :: nat list"
  let ?df = "\<lparr>index = IntegerIndex [0, 1, 2, 3, 4, 5, 6, 7, 8, 9, 10, 11, 12, 13, 14, 15, 16, 17],
       columns = [(Timestamp, Datetime ?ks)]\<rparr>"
  let ?out = "\<lparr>index = IntegerIndex [0, 15, 14, 13, 12, 11, 10, 9, 8, 7, 6, 5, 4, 3, 2, 1, 16, 17],
       columns = [(Timestamp, Datetime ?ks)]\<rparr>"
  have q: "nargsort_quicksort ?ks = Some ?p"
    by code_simp
  have n: "nargsort ?ks ?p"
    by code_simp
  have t: "take_rows ?df ?p = ?out"
    by code_simp
  have g': "get_column ?df Timestamp = Some (Datetime ?ks)"
    by (simp add: get_column_def)
  have a: "argsort_of (Datetime ?ks) ?p"
    using n by (simp only: argsort_of.simps)
  from sort_values.intros [OF g' a] have "sort_values ?df Timestamp ?out"
    by (simp only: t)
  then have s: "sort_values ([?df, ?df] ! 1) Timestamp ?out"
    by simp
  have c: "copy [?df] 0 = ([?df, ?df], 1)"
    by (simp add: copy_def)
  have g: "get_column ([?df, ?df] ! 1) Timestamp = Some (Datetime ?ks)"
    by (simp add: get_column_def)
  have d: "to_datetime (\<lambda>_. Inr None) (Datetime ?ks) = Inr ?ks"
    by (simp add: to_datetime_def)
  have u: "[?df, ?df] = [?df, ?df][1 := set_column ([?df, ?df] ! 1) Timestamp (Datetime ?ks)]"
    by (simp add: set_column_def)
  have r: "create_features (\<lambda>_. Inr None) [] False False [?df] 0
             (feature_steps (\<lambda>_. Inr None) [] False False ([?df, ?df, ?out], Inr 2))"
    using create_features.sorted_by_timestamp [OF c g d u s, of "[]" False False]
    by (simp add: numeral_2_eq_2)
  from q r show ?thesis by (intro conjI)
qed

end
